theory Spec2Isabelle
  imports Main "HOL-Library.Word" "HOL-Library.Monad_Syntax" "HOL-Library.Multiset"
begin

unbundle bit_operations_syntax

section \<open>Memory, sizes and the allocator\<close>

text \<open>
  Bytes are \<open>UINT8\<close>, sizes are \<open>UINTN\<close> (64 bits on the AArch64 targets of this tree) and
  wrap around as the C arithmetic does. A buffer is the list of its bytes; its capacity is
  the list's length. Every function that touches memory returns an \<open>option\<close>: \<open>None\<close> is an
  access outside the buffer (undefined behaviour in C), \<open>Some\<close> a normal return.
\<close>

type_synonym UINT8 = "8 word"

type_synonym UINT16 = "16 word"

type_synonym UINT32 = "32 word"

type_synonym INT32 = "32 word"

type_synonym UINTN = "64 word"

text \<open>
  A pointer value as a caller sees it: \<open>NULL\<close>, a pointer to memory that existed before
  the call (the input buffer, a buffer of the caller), or a pointer to a block that the
  call obtained from \<open>malloc\<close>.
\<close>

datatype pointer = NULL | Borrowed "UINT8 list" | Allocated "UINT8 list"

fun bytes_of :: "pointer \<Rightarrow> UINT8 list" where
  "bytes_of NULL = []"
| "bytes_of (Borrowed bs) = bs"
| "bytes_of (Allocated bs) = bs"

text \<open>
  The allocator is a fallible service. Its answers are a list of decisions, consumed one
  per request (\<open>True\<close>: the block is granted); once the list is used up every request is
  granted. A fresh block is uninitialised; the model fills it with zero bytes.
\<close>

type_synonym allocator = "bool list"

fun grant :: "allocator \<Rightarrow> bool \<times> allocator" where
  "grant [] = (True, [])"
| "grant (ok # al) = (ok, al)"

definition malloc :: "nat \<Rightarrow> allocator \<Rightarrow> UINT8 list option \<times> allocator" where
  "malloc n al = (case grant al of (ok, al') \<Rightarrow> (if ok then Some (replicate n 0) else None, al'))"

definition read8 :: "UINT8 list \<Rightarrow> nat \<Rightarrow> UINT8 option" where
  "read8 buf i = (if i < length buf then Some (buf ! i) else None)"

definition write8 :: "UINT8 list \<Rightarrow> nat \<Rightarrow> UINT8 \<Rightarrow> UINT8 list option" where
  "write8 buf i v = (if i < length buf then Some (buf[i := v]) else None)"

text \<open>
  \<open>CopyMem (Dst + off, Src, n)\<close> and \<open>CompareMem (Buf + off, Src, n) == 0\<close> of the base
  library: both ranges have to lie inside their buffers.
\<close>

definition CopyMem :: "UINT8 list \<Rightarrow> nat \<Rightarrow> UINT8 list \<Rightarrow> nat \<Rightarrow> UINT8 list option" where
  "CopyMem dst off src n =
     (if off + n \<le> length dst \<and> n \<le> length src
      then Some (take off dst @ take n src @ drop (off + n) dst)
      else None)"

definition CompareMem :: "UINT8 list \<Rightarrow> nat \<Rightarrow> UINT8 list \<Rightarrow> nat \<Rightarrow> bool option" where
  "CompareMem buf off src n =
     (if off + n \<le> length buf \<and> n \<le> length src
      then Some (take n (drop off buf) = take n src)
      else None)"

section \<open>The envelope normalizer: WrapPkcs7Data\<close>

definition mOidValue :: "UINT8 list" where
  "mOidValue = [0x2A, 0x86, 0x48, 0x86, 0xF7, 0x0D, 0x01, 0x07, 0x02]"

text \<open>
  The detection of lines 95 to 102, with the short-circuit order of the C conditions: a
  byte is read only when the tests before it succeeded.
\<close>

definition IsWrapped :: "UINT8 list \<Rightarrow> bool option" where
  "IsWrapped P7Data = do {
     b4 \<leftarrow> read8 P7Data 4;
     if b4 = 0x06 then do {
       b5 \<leftarrow> read8 P7Data 5;
       if b5 = 0x09 then do {
         same \<leftarrow> CompareMem P7Data 6 mOidValue 9;
         if same then do {
           b15 \<leftarrow> read8 P7Data 15;
           if b15 = 0xA0 then do {
             b16 \<leftarrow> read8 P7Data 16;
             Some (b16 = 0x82)
           } else Some False
         } else Some False
       } else Some False
     } else Some False
   }"

text \<open>The three output parameters of \<open>WrapPkcs7Data\<close>, with their values at entry.\<close>

record wrap_out =
  WrapFlag :: bool
  WrapData :: pointer
  WrapDataSize :: UINTN

text \<open>The 19 header bytes and the payload, written into the fresh block (lines 118 to 158).\<close>

definition FillWrapper :: "UINT8 list \<Rightarrow> UINTN \<Rightarrow> UINT8 list \<Rightarrow> UINTN \<Rightarrow> UINT8 list option" where
  "FillWrapper SignedData Size P7Data P7Length = do {
     SignedData \<leftarrow> write8 SignedData 0 0x30;
     SignedData \<leftarrow> write8 SignedData 1 0x82;
     SignedData \<leftarrow> write8 SignedData 2 (ucast (drop_bit 8 (ucast (Size - 4) :: UINT16)));
     SignedData \<leftarrow> write8 SignedData 3 (ucast ((ucast (Size - 4) :: UINT16) AND 0xff));
     SignedData \<leftarrow> write8 SignedData 4 0x06;
     SignedData \<leftarrow> write8 SignedData 5 0x09;
     SignedData \<leftarrow> CopyMem SignedData 6 mOidValue 9;
     SignedData \<leftarrow> write8 SignedData 15 0xA0;
     SignedData \<leftarrow> write8 SignedData 16 0x82;
     SignedData \<leftarrow> write8 SignedData 17 (ucast (drop_bit 8 (ucast P7Length :: UINT16)));
     SignedData \<leftarrow> write8 SignedData 18 (ucast ((ucast P7Length :: UINT16) AND 0xff));
     CopyMem SignedData 19 P7Data (unat P7Length)
   }"

text \<open>
  \<open>WrapPkcs7Data\<close>: \<open>P7Length\<close> is the length of the buffer \<open>P7Data\<close>. The result is the
  return value, the output parameters and the allocator after the call.
\<close>

definition WrapPkcs7Data ::
    "UINT8 list \<Rightarrow> wrap_out \<Rightarrow> allocator \<Rightarrow> (bool \<times> wrap_out \<times> allocator) option" where
  "WrapPkcs7Data P7Data out al = do {
     let P7Length = (word_of_nat (length P7Data) :: UINTN);
     Wrapped \<leftarrow> IsWrapped P7Data;
     if Wrapped then
       Some (True,
         out\<lparr>WrapData := Borrowed P7Data, WrapDataSize := P7Length, WrapFlag := Wrapped\<rparr>, al)
     else do {
       let Size = P7Length + 19;
       let (blk, al') = malloc (unat Size) al;
       case blk of
         None \<Rightarrow>
           Some (False, out\<lparr>WrapDataSize := Size, WrapData := NULL, WrapFlag := Wrapped\<rparr>, al')
       | Some SignedData \<Rightarrow> do {
           SignedData \<leftarrow> FillWrapper SignedData Size P7Data P7Length;
           Some (True,
             out\<lparr>WrapDataSize := Size, WrapData := Allocated SignedData, WrapFlag := Wrapped\<rparr>,
             al')
         }
     }
   }"

text \<open>The values of the callers' local variables before \<open>WrapPkcs7Data\<close> fills them.\<close>

definition wrap_locals :: wrap_out where
  "wrap_locals = \<lparr>WrapFlag = False, WrapData = NULL, WrapDataSize = 0\<rparr>"

definition INT_MAX :: nat where
  "INT_MAX = 2147483647"

section \<open>The decoder's objects\<close>

text \<open>
  The DER decoder, the certificate objects and the stacks belong to the cryptographic
  library, an external collaborator. What the functions of this file use of them:
  \<^item> a certificate has an identity (the address of the object, compared by
    \<open>sk_X509_delete_ptr\<close>), subject and issuer names, a serial number and its DER encoding;
  \<^item> a stack is the list of its elements, index 0 first: \<open>push\<close> appends at the end,
    \<open>pop\<close> removes the last element, \<open>value\<close> indexes, \<open>delete_ptr\<close> removes the first
    entry that is the given object, \<open>num\<close> of a NULL stack is -1;
  \<^item> a call of the library that acquires memory takes one decision of the allocator.
\<close>

type_synonym X509_NAME = string

record X509 =
  handle :: nat
  subject :: X509_NAME
  issuer :: X509_NAME
  serial :: nat
  der :: "UINT8 list"

record PKCS7_SIGNER_INFO =
  ias_issuer :: X509_NAME
  ias_serial :: nat
  enc_digest :: "UINT8 list option"

record PKCS7 =
  type_is_signed :: bool
  signer_info :: "PKCS7_SIGNER_INFO list option"
  cert :: "X509 list option"

type_synonym decoder = "UINT8 list \<Rightarrow> PKCS7 option"

definition sk_num :: "'a list option \<Rightarrow> int" where
  "sk_num sk = (case sk of None \<Rightarrow> - 1 | Some xs \<Rightarrow> int (length xs))"

fun sk_X509_delete_ptr :: "X509 list \<Rightarrow> X509 \<Rightarrow> X509 list" where
  "sk_X509_delete_ptr [] p = []"
| "sk_X509_delete_ptr (x # xs) p =
     (if handle x = handle p then xs else x # sk_X509_delete_ptr xs p)"

definition X509_find_by_subject :: "X509 list \<Rightarrow> X509_NAME \<Rightarrow> X509 option" where
  "X509_find_by_subject sk name = find (\<lambda>x. subject x = name) sk"

definition X509_find_by_issuer_and_serial ::
    "X509 list \<Rightarrow> X509_NAME \<Rightarrow> nat \<Rightarrow> X509 option" where
  "X509_find_by_issuer_and_serial sk name ser = find (\<lambda>x. issuer x = name \<and> serial x = ser) sk"

text \<open>
  \<open>PKCS7_get0_signers (Pkcs7, NULL, PKCS7_BINARY)\<close>: no signer info gives NULL; otherwise
  one certificate for each signer info, looked up by issuer and serial number among the
  embedded certificates, and NULL when one of them is missing.
\<close>

definition PKCS7_get0_signers :: "PKCS7 \<Rightarrow> allocator \<Rightarrow> X509 list option \<times> allocator" where
  "PKCS7_get0_signers p7 al =
     (if sk_num (signer_info p7) \<le> 0 then (None, al)
      else case grant al of (ok, al') \<Rightarrow>
        if \<not> ok then (None, al')
        else case cert p7 of
          None \<Rightarrow> (None, al')
        | Some certs \<Rightarrow>
            (those (map (\<lambda>si. X509_find_by_issuer_and_serial certs (ias_issuer si) (ias_serial si))
                     (case signer_info p7 of None \<Rightarrow> [] | Some sis \<Rightarrow> sis)),
             al'))"

text \<open>
  The verification context: \<open>X509_STORE_CTX_init (CertCtx, store, x509, chain)\<close> records its
  arguments and leaves the built chain empty (NULL) until a verification runs.
\<close>

record X509_STORE_CTX =
  ctx_store :: "X509 list option"
  ctx_cert :: X509
  ctx_untrusted :: "X509 list option"
  ctx_chain :: "X509 list option"

definition X509_STORE_CTX_init ::
    "X509 list option \<Rightarrow> X509 \<Rightarrow> X509 list option \<Rightarrow> X509_STORE_CTX" where
  "X509_STORE_CTX_init store x509 chain =
     \<lparr>ctx_store = store, ctx_cert = x509, ctx_untrusted = chain, ctx_chain = None\<rparr>"

text \<open>
  \<open>X509_STORE_CTX_get1_issuer\<close> looks the issuer up in the context's store, by subject
  name; a context without a store finds nothing. \<open>X509_cmp\<close> compares the encodings.
\<close>

definition X509_STORE_CTX_get1_issuer :: "X509_STORE_CTX \<Rightarrow> X509 \<Rightarrow> X509 option" where
  "X509_STORE_CTX_get1_issuer ctx x =
     (case ctx_store ctx of None \<Rightarrow> None | Some certs \<Rightarrow> X509_find_by_subject certs (issuer x))"

definition X509_cmp_eq :: "X509 \<Rightarrow> X509 \<Rightarrow> bool" where
  "X509_cmp_eq a b = (der a = der b)"

section \<open>X509PopCertificate\<close>

text \<open>
  Lines 178 to 251. The three call sites pass a stack that they have tested against NULL
  and the addresses of two locals, so the argument check of line 197 never fires and the
  model takes the stack itself. The result is \<open>None\<close> for FALSE and the certificate bytes
  with their size for TRUE, with the stack after the pop. \<open>Length\<close> is the \<open>INT32\<close> cast
  of the encoding's size; \<open>BIO_read\<close> delivers at most \<open>Length\<close> bytes.
\<close>

definition X509PopCertificate ::
    "X509 list \<Rightarrow> allocator \<Rightarrow> (UINT8 list \<times> UINTN) option \<times> X509 list \<times> allocator" where
  "X509PopCertificate CertStack al =
     (if CertStack = [] then (None, CertStack, al)
      else
        let X509Cert = last CertStack; Rest = butlast CertStack in
        case grant al of (bio_ok, al1) \<Rightarrow>
        if \<not> bio_ok then (None, Rest, al1)
        else case grant al1 of (i2d_ok, al2) \<Rightarrow>
        if \<not> i2d_ok then (None, Rest, al2)
        else
          let Length = (word_of_nat (length (der X509Cert)) :: INT32) in
          if sint Length \<le> 0 then (None, Rest, al2)
          else case malloc (nat (sint Length)) al2 of (blk, al3) \<Rightarrow>
            (case blk of
               None \<Rightarrow> (None, Rest, al3)
             | Some Buffer \<Rightarrow>
                 let Result = min (nat (sint Length)) (length (der X509Cert)) in
                 if int Result \<noteq> sint Length then (None, Rest, al3)
                 else (Some (take Result (der X509Cert), word_of_int (sint Length)), Rest, al3)))"

section \<open>The certificate list serializer\<close>

text \<open>
  Modelled from the spec: \<open>WriteUnaligned32\<close> is a function of the base library, which is not
  part of the sources at hand. It stores the 32-bit value at the address in the byte order
  of the machine, little-endian on every target of this tree.
\<close>

definition UINT32_bytes :: "UINT32 \<Rightarrow> UINT8 list" where
  "UINT32_bytes v = [ucast v, ucast (drop_bit 8 v), ucast (drop_bit 16 v), ucast (drop_bit 24 v)]"

definition WriteUnaligned32 :: "UINT8 list \<Rightarrow> nat \<Rightarrow> UINT32 \<Rightarrow> UINT8 list option" where
  "WriteUnaligned32 buf off v = CopyMem buf off (UINT32_bytes v) 4"

text \<open>
  The loop of lines 365 to 391, repeated at lines 659 to 686 and 703 to 730; the copies
  differ only in the value of \<open>Status\<close> when \<open>malloc\<close> fails, which the callers decide. The
  loop ends by \<open>break\<close> when the pop fails (\<open>Drained\<close>) or by \<open>goto\<close> when the block for the
  grown buffer is refused (\<open>NoMemory\<close>).
\<close>

record loop_state =
  Index :: UINT8
  CertBuf :: "UINT8 list option"
  OldBuf :: "UINT8 list option"
  BufferSize :: UINTN
  OldSize :: UINTN

datatype loop_exit = Drained | NoMemory

lemma X509PopCertificate_shorter:
  "X509PopCertificate st al = (Some r, st', al') \<Longrightarrow> length st' < length st"
  by (auto simp add: X509PopCertificate_def Let_def split: if_splits prod.splits option.splits)

function CertLoop ::
    "X509 list \<Rightarrow> loop_state \<Rightarrow> allocator \<Rightarrow>
       (loop_exit \<times> loop_state \<times> X509 list \<times> allocator) option" where
  "CertLoop Stack s al =
     (case X509PopCertificate Stack al of
        (None, Stack', al1) \<Rightarrow> Some (Drained, s, Stack', al1)
      | (Some (SingleCert, SingleCertSize), Stack', al1) \<Rightarrow>
          let OldSize' = BufferSize s;
              OldBuf' = CertBuf s;
              BufferSize' = OldSize' + SingleCertSize + 4
          in
          (case malloc (unat BufferSize') al1 of
             (None, al2) \<Rightarrow>
               Some (NoMemory,
                 s\<lparr>OldSize := OldSize', OldBuf := OldBuf', BufferSize := BufferSize',
                   CertBuf := None\<rparr>, Stack', al2)
           | (Some blk, al2) \<Rightarrow> do {
               blk \<leftarrow> (case OldBuf' of
                         None \<Rightarrow> Some blk
                       | Some old \<Rightarrow> CopyMem blk 0 old (unat OldSize'));
               blk \<leftarrow> WriteUnaligned32 blk (unat OldSize') (ucast SingleCertSize);
               blk \<leftarrow> CopyMem blk (unat OldSize' + 4) SingleCert (unat SingleCertSize);
               CertLoop Stack'
                 \<lparr>Index = Index s + 1, CertBuf = Some blk, OldBuf = None,
                  BufferSize = BufferSize', OldSize = OldSize'\<rparr> al2
             }))"
  by pat_completeness auto

termination
  by (relation "measure (\<lambda>(Stack, s, al). length Stack)")
     (auto dest: X509PopCertificate_shorter [OF sym])

declare CertLoop.simps [simp del]

text \<open>
  The locals before a loop starts: \<open>BufferSize = sizeof (UINT8)\<close>, no buffer yet. \<open>OldSize\<close>
  is assigned in every iteration before it is read.
\<close>

definition loop_start :: loop_state where
  "loop_start = \<lparr>Index = 0, CertBuf = None, OldBuf = None, BufferSize = 1, OldSize = 1\<rparr>"

section \<open>Pkcs7GetSigners\<close>

text \<open>
  An output parameter is \<open>None\<close> when the caller passed a NULL address, and otherwise holds
  the value of the caller's variable. A \<open>goto _Exit\<close> is a return of the live locals
  \<open>Status\<close> and \<open>CertBuf\<close> with the outputs; the code behind the label is applied to them
  last. The blocks released here are released through the addresses that \<open>malloc\<close> returned
  (the decoder works on the copy \<open>Temp\<close> of \<open>SignedData\<close>), and nothing reads them afterwards:
  these releases leave no trace in the model.
\<close>

record signers_out =
  CertStack :: "pointer option"
  StackLength :: "UINTN option"
  TrustedCert :: "pointer option"
  CertLength :: "UINTN option"

text \<open>Lines 362 to 409: the loop, the certificate count and the copy of the last record.\<close>

definition GetSigners_list ::
    "X509 list \<Rightarrow> signers_out \<Rightarrow> allocator \<Rightarrow>
       (bool \<times> UINT8 list option \<times> signers_out \<times> allocator) option" where
  "GetSigners_list Stack out al = do {
     (ex, s, Stack', al1) \<leftarrow> CertLoop Stack loop_start al;
     case ex of
       NoMemory \<Rightarrow> Some (True, CertBuf s, out, al1)
     | Drained \<Rightarrow>
         (case CertBuf s of
            None \<Rightarrow> Some (False, None, out, al1)
          | Some buf \<Rightarrow> do {
              buf \<leftarrow> write8 buf 0 (Index s);
              let Len = BufferSize s - OldSize s - 4;
              let out = out\<lparr>CertLength := Some Len\<rparr>;
              case malloc (unat Len) al1 of
                (None, al2) \<Rightarrow> Some (False, Some buf, out\<lparr>TrustedCert := Some NULL\<rparr>, al2)
              | (Some blk, al2) \<Rightarrow> do {
                  blk \<leftarrow> CopyMem blk 0 (drop (unat (OldSize s) + 4) buf) (unat Len);
                  Some (True, Some buf,
                    out\<lparr>TrustedCert := Some (Allocated blk),
                        CertStack := Some (Allocated buf),
                        StackLength := Some (BufferSize s)\<rparr>, al2)
                }
            })
   }"

text \<open>
  Lines 333 to 409. When \<open>malloc\<close> fails inside the loop, \<open>Status\<close> still holds the TRUE of
  the pop before it, and the function leaves through \<open>_Exit\<close> with that value.
\<close>

definition GetSigners_body ::
    "decoder \<Rightarrow> UINT8 list \<Rightarrow> signers_out \<Rightarrow> allocator \<Rightarrow>
       (bool \<times> UINT8 list option \<times> signers_out \<times> allocator) option" where
  "GetSigners_body d2i_PKCS7 SignedData out al =
     (case d2i_PKCS7 SignedData of
        None \<Rightarrow> Some (False, None, out, al)
      | Some Pkcs7 \<Rightarrow>
          if \<not> type_is_signed Pkcs7 then Some (False, None, out, al)
          else case PKCS7_get0_signers Pkcs7 al of
            (None, al1) \<Rightarrow> Some (False, None, out, al1)
          | (Some Stack, al1) \<Rightarrow> GetSigners_list Stack out al1)"

definition GetSigners_Exit :: "bool \<Rightarrow> UINT8 list option \<Rightarrow> signers_out \<Rightarrow> signers_out" where
  "GetSigners_Exit Status CertBuf' out =
     (if \<not> Status \<and> CertBuf' \<noteq> None then out\<lparr>CertStack := Some NULL\<rparr> else out)"

definition Pkcs7GetSigners ::
    "decoder \<Rightarrow> UINT8 list option \<Rightarrow> signers_out \<Rightarrow> allocator \<Rightarrow>
       (bool \<times> signers_out \<times> allocator) option" where
  "Pkcs7GetSigners d2i_PKCS7 P7Data out al =
     (case P7Data of
        None \<Rightarrow> Some (False, out, al)
      | Some P7Bytes \<Rightarrow>
          if CertStack out = None \<or> StackLength out = None \<or> TrustedCert out = None \<or>
             CertLength out = None \<or> INT_MAX < unat (word_of_nat (length P7Bytes) :: UINTN)
          then Some (False, out, al)
          else do {
            (Status, w, al1) \<leftarrow> WrapPkcs7Data P7Bytes wrap_locals al;
            if \<not> Status then Some (Status, out, al1)
            else do {
              (Status, CertBuf', out, al2) \<leftarrow>
                (if INT_MAX < unat (WrapDataSize w) then Some (False, None, out, al1)
                 else GetSigners_body d2i_PKCS7 (bytes_of (WrapData w)) out al1);
              Some (Status, GetSigners_Exit Status CertBuf' out, al2)
            }
          })"

section \<open>Pkcs7GetCertificatesList\<close>

lemma X509_find_by_subject_shorter:
  "X509_find_by_subject sk name = Some x \<Longrightarrow> length (sk_X509_delete_ptr sk x) < length sk"
  by (induction sk) (auto simp add: X509_find_by_subject_def split: if_splits)

text \<open>
  The loop of lines 609 to 641. The first component of the result is FALSE when
  \<open>sk_X509_push\<close> fails (\<open>goto _Error\<close>), and TRUE with the two stacks when the loop is left
  by \<open>break\<close>.
\<close>

function ChainWalk ::
    "X509_STORE_CTX \<Rightarrow> X509 \<Rightarrow> X509 list \<Rightarrow> X509 list option \<Rightarrow> allocator \<Rightarrow>
       bool \<times> X509 list \<times> X509 list option \<times> allocator" where
  "ChainWalk CertCtx Cert CtxChain CtxUntrusted al =
     (if (case X509_STORE_CTX_get1_issuer CertCtx Cert of
            None \<Rightarrow> False
          | Some Issuer \<Rightarrow> X509_cmp_eq Issuer Cert)
      then (True, CtxChain, CtxUntrusted, al)
      else case CtxUntrusted of
        None \<Rightarrow> (True, CtxChain, CtxUntrusted, al)
      | Some Untrusted \<Rightarrow>
          (case X509_find_by_subject Untrusted (issuer Cert) of
             None \<Rightarrow> (True, CtxChain, CtxUntrusted, al)
           | Some Issuer \<Rightarrow>
               (case grant al of (pushed, al1) \<Rightarrow>
                  if \<not> pushed then (False, CtxChain, CtxUntrusted, al1)
                  else ChainWalk CertCtx Issuer (CtxChain @ [Issuer])
                         (Some (sk_X509_delete_ptr Untrusted Issuer)) al1)))"
  by pat_completeness auto

termination
  by (relation "measure (\<lambda>(CertCtx, Cert, CtxChain, CtxUntrusted, al).
        case CtxUntrusted of None \<Rightarrow> 0 | Some Untrusted \<Rightarrow> length Untrusted)")
     (auto dest: X509_find_by_subject_shorter)

declare ChainWalk.simps [simp del]

record certlist_out =
  SignerChainCerts :: "pointer option"
  ChainLength :: "UINTN option"
  UnchainCerts :: "pointer option"
  UnchainLength :: "UINTN option"

text \<open>
  Lines 591 to 599: the chain of the context, or a new stack holding the context's
  certificate when the context has none.
\<close>

definition InitChain :: "X509_STORE_CTX \<Rightarrow> allocator \<Rightarrow> bool \<times> X509 list \<times> allocator" where
  "InitChain CertCtx al =
     (case ctx_chain CertCtx of
        Some CtxChain \<Rightarrow> (True, CtxChain, al)
      | None \<Rightarrow>
          (case grant al of (created, al1) \<Rightarrow>
             if \<not> created then (False, [], al1)
             else case grant al1 of (pushed, al2) \<Rightarrow> (pushed, [ctx_cert CertCtx], al2)))"

text \<open>
  Lines 572 to 641: the signer, the context, the two stacks and the walk. The first
  component of the result tells whether line 643 is reached: it is FALSE for a
  \<open>goto _Error\<close>, and otherwise TRUE with the chain and the untrusted pool as they stand
  there. It is not the variable \<open>Status\<close>, which these lines do not assign.
\<close>

definition GetCertificatesList_stacks ::
    "PKCS7 \<Rightarrow> allocator \<Rightarrow> bool \<times> X509 list \<times> X509 list option \<times> allocator" where
  "GetCertificatesList_stacks Pkcs7 al =
     (case PKCS7_get0_signers Pkcs7 al of (Signers, al1) \<Rightarrow>
      if Signers = None \<or> sk_num Signers \<noteq> 1 then (False, [], None, al1)
      else
        let Signer = (case Signers of Some sk \<Rightarrow> sk ! 0) in
        case grant al1 of (ctx_new, al2) \<Rightarrow>
        if \<not> ctx_new then (False, [], None, al2)
        else case grant al2 of (ctx_init, al3) \<Rightarrow>
        if \<not> ctx_init then (False, [], None, al3)
        else
          let CertCtx = X509_STORE_CTX_init None Signer (cert Pkcs7) in
          case InitChain CertCtx al3 of (chain_ok, CtxChain, al4) \<Rightarrow>
          if \<not> chain_ok then (False, [], None, al4)
          else
            let CtxUntrusted =
                  map_option (\<lambda>sk. sk_X509_delete_ptr sk Signer) (ctx_untrusted CertCtx)
            in ChainWalk CertCtx Signer CtxChain CtxUntrusted al4)"

text \<open>
  Lines 699 to 743: the untrusted pool into the second output. \<open>CertBuf\<close> is NULL when
  \<open>malloc\<close> fails, so the release code behind \<open>_Error\<close> finds nothing to reset.
\<close>

definition GetCertificatesList_unchained ::
    "X509 list option \<Rightarrow> UINT8 list option \<Rightarrow> certlist_out \<Rightarrow> allocator \<Rightarrow>
       (bool \<times> UINT8 list option \<times> certlist_out \<times> allocator) option" where
  "GetCertificatesList_unchained CtxUntrusted CertBuf' out al =
     (case CtxUntrusted of
        None \<Rightarrow> Some (True, CertBuf', out, al)
      | Some Untrusted \<Rightarrow> do {
          (ex, s, Rest, al1) \<leftarrow> CertLoop Untrusted loop_start al;
          case ex of
            NoMemory \<Rightarrow> Some (False, CertBuf s, out, al1)
          | Drained \<Rightarrow> do {
              out \<leftarrow>
                (case CertBuf s of
                   None \<Rightarrow> Some out
                 | Some buf \<Rightarrow> do {
                     buf \<leftarrow> write8 buf 0 (Index s);
                     Some (out\<lparr>UnchainCerts := Some (Allocated buf),
                               UnchainLength := Some (BufferSize s)\<rparr>)
                   });
              Some (True, CertBuf s, out, al1)
            }
        })"

text \<open>Lines 655 to 743: the chain into the first output, then the untrusted pool.\<close>

definition GetCertificatesList_lists ::
    "X509 list \<Rightarrow> X509 list option \<Rightarrow> certlist_out \<Rightarrow> allocator \<Rightarrow>
       (bool \<times> UINT8 list option \<times> certlist_out \<times> allocator) option" where
  "GetCertificatesList_lists CtxChain CtxUntrusted out al = do {
     (ex, s, Rest, al1) \<leftarrow> CertLoop CtxChain loop_start al;
     case ex of
       NoMemory \<Rightarrow> Some (False, CertBuf s, out, al1)
     | Drained \<Rightarrow> do {
         out \<leftarrow>
           (case CertBuf s of
              None \<Rightarrow> Some out
            | Some buf \<Rightarrow> do {
                buf \<leftarrow> write8 buf 0 (Index s);
                Some (out\<lparr>SignerChainCerts := Some (Allocated buf),
                          ChainLength := Some (BufferSize s)\<rparr>)
              });
         GetCertificatesList_unchained CtxUntrusted (CertBuf s) out al1
       }
   }"

text \<open>
  \<open>d2i_PKCS7 (NULL, &NewP7Data, NewP7Length)\<close> of line 562 is given the address of
  \<open>NewP7Data\<close> itself. The decoder moves the pointer behind the encoding that it has read
  (an encoding has at least its identifier and length bytes) and leaves it in place when it
  fails, so after a successful decoding \<open>NewP7Data\<close> is no longer the address of its block.
\<close>

datatype position = AtStart | Advanced

text \<open>
  \<open>free\<close> accepts NULL and the address that \<open>malloc\<close> returned for a block. Every other
  argument (an address inside a block, memory of the caller) is undefined behaviour.
\<close>

definition free :: "pointer \<Rightarrow> position \<Rightarrow> unit option" where
  "free p pos =
     (case p of
        NULL \<Rightarrow> Some ()
      | Allocated blk \<Rightarrow> (if pos = AtStart then Some () else None)
      | Borrowed bs \<Rightarrow> None)"

text \<open>
  Lines 562 to 743. \<open>Status\<close> is the TRUE that \<open>WrapPkcs7Data\<close> returned at line 554; no
  statement assigns it before the pop of line 660, so every \<open>goto _Error\<close> of lines 563 to
  631 leaves with that value. The second component of the result is the position of
  \<open>NewP7Data\<close> behind the label.
\<close>

definition GetCertificatesList_body ::
    "decoder \<Rightarrow> bool \<Rightarrow> UINT8 list \<Rightarrow> certlist_out \<Rightarrow> allocator \<Rightarrow>
       (bool \<times> position \<times> UINT8 list option \<times> certlist_out \<times> allocator) option" where
  "GetCertificatesList_body d2i_PKCS7 Status NewP7Data out al =
     (case d2i_PKCS7 NewP7Data of
        None \<Rightarrow> Some (Status, AtStart, None, out, al)
      | Some Pkcs7 \<Rightarrow>
          if \<not> type_is_signed Pkcs7 then Some (Status, Advanced, None, out, al)
          else case GetCertificatesList_stacks Pkcs7 al of
            (built, CtxChain, CtxUntrusted, al1) \<Rightarrow>
              if \<not> built then Some (Status, Advanced, None, out, al1)
              else do {
                (Status, CertBuf', out, al2) \<leftarrow>
                  GetCertificatesList_lists CtxChain CtxUntrusted out al1;
                Some (Status, Advanced, CertBuf', out, al2)
              })"

text \<open>
  The code behind \<open>_Error\<close>. Lines 749 to 751 release the synthesized envelope through
  \<open>NewP7Data\<close>; lines 772 to 776 reset two outputs when \<open>Status\<close> is FALSE and \<open>CertBuf\<close> is
  not NULL.
\<close>

definition GetCertificatesList_Release :: "bool \<Rightarrow> pointer \<Rightarrow> position \<Rightarrow> unit option" where
  "GetCertificatesList_Release Wrapped NewP7Data pos =
     (if \<not> Wrapped \<and> NewP7Data \<noteq> NULL then free NewP7Data pos else Some ())"

definition GetCertificatesList_Error ::
    "bool \<Rightarrow> UINT8 list option \<Rightarrow> certlist_out \<Rightarrow> certlist_out" where
  "GetCertificatesList_Error Status CertBuf' out =
     (if \<not> Status \<and> CertBuf' \<noteq> None
      then out\<lparr>SignerChainCerts := Some NULL, UnchainCerts := Some NULL\<rparr>
      else out)"

definition Pkcs7GetCertificatesList ::
    "decoder \<Rightarrow> UINT8 list option \<Rightarrow> certlist_out \<Rightarrow> allocator \<Rightarrow>
       (bool \<times> certlist_out \<times> allocator) option" where
  "Pkcs7GetCertificatesList d2i_PKCS7 P7Data out al =
     (case P7Data of
        None \<Rightarrow> Some (False, out, al)
      | Some P7Bytes \<Rightarrow>
          if SignerChainCerts out = None \<or> ChainLength out = None \<or> UnchainCerts out = None \<or>
             UnchainLength out = None \<or> INT_MAX < unat (word_of_nat (length P7Bytes) :: UINTN)
          then Some (False, out, al)
          else do {
            let out = out\<lparr>SignerChainCerts := Some NULL, ChainLength := Some 0,
                          UnchainCerts := Some NULL, UnchainLength := Some 0\<rparr>;
            (Status, w, al1) \<leftarrow> WrapPkcs7Data P7Bytes wrap_locals al;
            (Status, pos, CertBuf', out, al2) \<leftarrow>
              (if \<not> Status \<or> INT_MAX < unat (WrapDataSize w)
               then Some (Status, AtStart, None, out, al1)
               else GetCertificatesList_body d2i_PKCS7 Status (bytes_of (WrapData w)) out al1);
            _ \<leftarrow> GetCertificatesList_Release (WrapFlag w) (WrapData w) pos;
            Some (Status, GetCertificatesList_Error Status CertBuf' out, al2)
          })"

section \<open>Pkcs7GetSignature\<close>

text \<open>
  \<open>Signature\<close> is \<open>None\<close> for a NULL argument, \<open>Some None\<close> when the caller's pointer is NULL
  and \<open>Some (Some buf)\<close> when it points to a buffer of the caller. Storing the length
  through a NULL \<open>SignatureLength\<close> is an invalid access. A stack of one signer info holds
  it at index 0, so the test of line 1043 cannot fire.
\<close>

definition GetSignature_body ::
    "decoder \<Rightarrow> UINT8 list \<Rightarrow> UINT8 list option option \<Rightarrow> UINTN option \<Rightarrow>
       (bool \<times> UINT8 list option option \<times> UINTN option) option" where
  "GetSignature_body d2i_PKCS7 SignedData Signature SignatureLength =
     (case d2i_PKCS7 SignedData of
        None \<Rightarrow> Some (False, Signature, SignatureLength)
      | Some Pkcs7 \<Rightarrow>
          if \<not> type_is_signed Pkcs7 then Some (False, Signature, SignatureLength)
          else
            let SignerInfos = signer_info Pkcs7 in
            if SignerInfos = None \<or> sk_num SignerInfos \<noteq> 1
            then Some (False, Signature, SignatureLength)
            else
              let SignInfo = (case SignerInfos of Some sk \<Rightarrow> sk ! 0) in
              case enc_digest SignInfo of
                None \<Rightarrow> Some (False, Signature, SignatureLength)
              | Some EncDigest \<Rightarrow>
                  (case SignatureLength of
                     None \<Rightarrow> None
                   | Some old \<Rightarrow>
                       let SignatureLength = Some (word_of_nat (length EncDigest) :: UINTN) in
                       case Signature of
                         None \<Rightarrow> Some (False, Signature, SignatureLength)
                       | Some None \<Rightarrow> Some (False, Signature, SignatureLength)
                       | Some (Some buf) \<Rightarrow> do {
                           buf \<leftarrow> CopyMem buf 0 EncDigest (length EncDigest);
                           Some (True, Some (Some buf), SignatureLength)
                         }))"

definition Pkcs7GetSignature ::
    "decoder \<Rightarrow> UINT8 list option \<Rightarrow> UINT8 list option option \<Rightarrow> UINTN option \<Rightarrow> allocator \<Rightarrow>
       (bool \<times> UINT8 list option option \<times> UINTN option \<times> allocator) option" where
  "Pkcs7GetSignature d2i_PKCS7 P7Data Signature SignatureLength al =
     (case P7Data of
        None \<Rightarrow> Some (False, Signature, SignatureLength, al)
      | Some P7Bytes \<Rightarrow>
          if INT_MAX < unat (word_of_nat (length P7Bytes) :: UINTN) \<or>
             (Signature = None \<and> SignatureLength = None)
          then Some (False, Signature, SignatureLength, al)
          else do {
            (Status, w, al1) \<leftarrow> WrapPkcs7Data P7Bytes wrap_locals al;
            if \<not> Status then Some (Status, Signature, SignatureLength, al1)
            else if INT_MAX < unat (WrapDataSize w)
            then Some (False, Signature, SignatureLength, al1)
            else do {
              (Status, Signature, SignatureLength) \<leftarrow>
                GetSignature_body d2i_PKCS7 (bytes_of (WrapData w)) Signature SignatureLength;
              Some (Status, Signature, SignatureLength, al1)
            }
          })"

section \<open>Auxiliary definitions for the statements\<close>

text \<open>The 19 header bytes as \<open>FillWrapper\<close> leaves them.\<close>

definition WrapHeader :: "UINTN \<Rightarrow> UINTN \<Rightarrow> UINT8 list" where
  "WrapHeader Size P7Length =
     [0x30, 0x82, ucast (drop_bit 8 (ucast (Size - 4) :: UINT16)),
      ucast ((ucast (Size - 4) :: UINT16) AND 0xff), 0x06, 0x09,
      0x2A, 0x86, 0x48, 0x86, 0xF7, 0x0D, 0x01, 0x07, 0x02,
      0xA0, 0x82, ucast (drop_bit 8 (ucast P7Length :: UINT16)),
      ucast ((ucast P7Length :: UINT16) AND 0xff)]"

text \<open>A bare blob of 17 bytes and its wrapped form.\<close>

definition bare_example :: "UINT8 list" where
  "bare_example = [0x30, 0x0F, 0x02, 0x01, 0x01, 0x31, 0x00, 0x30, 0x03, 0x06, 0x01, 0x00,
                   0x31, 0x00, 0x31, 0x00, 0x00]"

definition wrapped_example :: "UINT8 list" where
  "wrapped_example =
     [0x30, 0x82, 0x00, 0x20, 0x06, 0x09, 0x2A, 0x86, 0x48, 0x86, 0xF7, 0x0D, 0x01, 0x07, 0x02,
      0xA0, 0x82, 0x00, 0x11] @ bare_example"

text \<open>An allocator that grants every request.\<close>

definition granted :: "allocator \<Rightarrow> bool" where
  "granted al = (\<forall>ok \<in> set al. ok)"

text \<open>
  An encoding that \<open>X509PopCertificate\<close> accepts: its size is positive as an \<open>INT32\<close>.
\<close>

definition valid_der :: "X509 \<Rightarrow> bool" where
  "valid_der c = (0 < length (der c) \<and> length (der c) < 2 ^ 31)"

text \<open>The record of one certificate in a serialized list, and the records of a list.\<close>

definition CertRecord :: "X509 \<Rightarrow> UINT8 list" where
  "CertRecord c = UINT32_bytes (word_of_nat (length (der c))) @ der c"

definition CertRecords :: "X509 list \<Rightarrow> UINT8 list" where
  "CertRecords cs = concat (map CertRecord cs)"

text \<open>Three certificates: a leaf, the intermediate that issued it, and a self-issued root.\<close>

definition cert_A :: X509 where
  "cert_A = \<lparr>handle = 1, subject = ''Leaf'', issuer = ''Intermediate'', serial = 7, der = [0xAA]\<rparr>"

definition cert_B :: X509 where
  "cert_B = \<lparr>handle = 2, subject = ''Intermediate'', issuer = ''Root'', serial = 8,
              der = [0xBB, 0xBC]\<rparr>"

definition cert_C :: X509 where
  "cert_C = \<lparr>handle = 3, subject = ''Root'', issuer = ''Root'', serial = 9,
              der = [0xCC, 0xCD, 0xCE]\<rparr>"

text \<open>A signer info naming the leaf, and a signed SignedData as the decoder delivers it.\<close>

definition signer_info_A :: PKCS7_SIGNER_INFO where
  "signer_info_A = \<lparr>ias_issuer = ''Intermediate'', ias_serial = 7, enc_digest = Some [1, 2, 3]\<rparr>"

text \<open>
  A signer info naming the intermediate, for a SignedData with two signers.
\<close>

definition signer_info_B :: PKCS7_SIGNER_INFO where
  "signer_info_B = \<lparr>ias_issuer = ''Root'', ias_serial = 8, enc_digest = Some [4, 5]\<rparr>"

definition signed_data :: "PKCS7_SIGNER_INFO list \<Rightarrow> X509 list \<Rightarrow> PKCS7" where
  "signed_data sis certs = \<lparr>type_is_signed = True, signer_info = Some sis, cert = Some certs\<rparr>"

text \<open>Caller variables holding recognizable values before a call.\<close>

definition certlist_vars :: certlist_out where
  "certlist_vars = \<lparr>SignerChainCerts = Some (Borrowed [9]), ChainLength = Some 77,
                     UnchainCerts = Some (Borrowed [8]), UnchainLength = Some 5\<rparr>"

definition signers_vars :: signers_out where
  "signers_vars = \<lparr>CertStack = Some (Borrowed [9]), StackLength = Some 77,
                    TrustedCert = Some (Borrowed [8]), CertLength = Some 5\<rparr>"

text \<open>
  The serialized list of a stack: the count byte, then the records in pop order, the last
  entry of the stack first.
\<close>

definition CertList :: "X509 list \<Rightarrow> UINT8 list" where
  "CertList Stack = word_of_nat (length Stack) # CertRecords (rev Stack)"

text \<open>The outputs of \<open>Pkcs7GetCertificatesList\<close> after lines 546 to 549.\<close>

definition certlist_start :: "certlist_out \<Rightarrow> certlist_out" where
  "certlist_start out = out\<lparr>SignerChainCerts := Some NULL, ChainLength := Some 0,
                             UnchainCerts := Some NULL, UnchainLength := Some 0\<rparr>"

text \<open>The return value and the outputs of a call, without the allocator.\<close>

definition outcome :: "(bool \<times> 'a \<times> allocator) option \<Rightarrow> (bool \<times> 'a) option" where
  "outcome r = map_option (\<lambda>(Status, out, al). (Status, out)) r"

text \<open>A second object with the content of the leaf.\<close>

definition cert_A_copy :: X509 where
  "cert_A_copy = cert_A\<lparr>handle := 4\<rparr>"

section \<open>Facts about the envelope normalizer\<close>

lemma replicate_19:
  "replicate (k + 19) (z::UINT8) =
     z # z # z # z # z # z # z # z # z # z # z # z # z # z # z # z # z # z # z # replicate k z"
  by (simp add: eval_nat_numeral)

lemma FillWrapper_short: "m < 19 \<Longrightarrow> FillWrapper (replicate m 0) Size D L = None"
  by (simp add: FillWrapper_def write8_def CopyMem_def mOidValue_def)

lemma FillWrapper_long:
  "FillWrapper (replicate (k + 19) 0) Size D L =
     (if unat L \<le> k \<and> unat L \<le> length D
      then Some (WrapHeader Size L @ take (unat L) D @ replicate (k - unat L) 0)
      else None)"
  by (simp add: FillWrapper_def write8_def CopyMem_def mOidValue_def replicate_19
      WrapHeader_def eval_nat_numeral)

lemma FillWrapper_Some:
  assumes "FillWrapper (replicate m 0) Size D L = Some W"
  shows "\<exists>rest. W = WrapHeader Size L @ rest \<and> length W = m"
proof (cases "m < 19")
  case True
  with assms show ?thesis by (simp add: FillWrapper_short)
next
  case False
  then obtain k where m: "m = k + 19"
    by (metis add.commute le_Suc_ex not_less)
  from assms show ?thesis
    unfolding m FillWrapper_long
    by (auto simp add: WrapHeader_def split: if_splits)
qed

lemma IsWrapped_header: "IsWrapped (WrapHeader Size L @ rest) = Some True"
  by (simp add: IsWrapped_def read8_def CompareMem_def mOidValue_def WrapHeader_def
      eval_nat_numeral)

lemma ff_mask: "(0xff :: UINT16) = mask 8"
  by (simp add: mask_eq_exp_minus_1)

lemma lo_byte:
  "(ucast ((ucast (word_of_nat n :: UINTN) :: UINT16) AND 0xff) :: UINT8) = word_of_nat n"
  unfolding ff_mask by (rule bit_word_eqI) (auto simp add: bit_simps)

lemma hi_byte:
  "(ucast (drop_bit 8 (ucast (word_of_nat n :: UINTN) :: UINT16)) :: UINT8) =
     word_of_nat (n div 256)"
proof -
  have "n div 256 = drop_bit 8 n"
    by (simp add: drop_bit_eq_div)
  then show ?thesis
    by (intro bit_word_eqI) (auto simp add: bit_simps)
qed

lemma unat_UINTN: "n < 2 ^ 64 \<Longrightarrow> unat (word_of_nat n :: UINTN) = n"
  by (simp add: unat_of_nat)

lemma malloc_granted: "grant al = (True, al') \<Longrightarrow> malloc n al = (Some (replicate n 0), al')"
  by (simp add: malloc_def)

text \<open>
  C1. The claim: every input shorter than 17 bytes makes \<open>WrapPkcs7Data\<close> fail, and the
  detection never reads at or beyond the buffer's length. The code has no length test. On
  a buffer of 3 bytes the first detection read, at index 4, is outside the buffer; on a
  buffer of 5 bytes whose byte 4 is not 0x06 the detection stops after one read inside
  the buffer, and the function wraps the input and returns TRUE.
\<close>

theorem WrapPkcs7Data_short_input:
  "WrapPkcs7Data [0x30, 0x80, 0x00] wrap_locals [] = None \<and>
   WrapPkcs7Data [0, 0, 0, 0, 0] wrap_locals [] =
     Some (True,
       \<lparr>WrapFlag = False,
        WrapData = Allocated [0x30, 0x82, 0, 20, 0x06, 0x09,
                     0x2A, 0x86, 0x48, 0x86, 0xF7, 0x0D, 0x01, 0x07, 0x02,
                     0xA0, 0x82, 0, 5, 0, 0, 0, 0, 0],
        WrapDataSize = 24\<rparr>, [])"
proof
  show "WrapPkcs7Data [0x30, 0x80, 0x00] wrap_locals [] = None"
    by (simp add: WrapPkcs7Data_def IsWrapped_def read8_def)
next
  have "FillWrapper (replicate (5 + 19) 0) 24 [0, 0, 0, 0, 0] 5 =
          Some (WrapHeader 24 5 @ [0, 0, 0, 0, 0])"
    by (simp only: FillWrapper_long) simp
  then show "WrapPkcs7Data [0, 0, 0, 0, 0] wrap_locals [] =
     Some (True,
       \<lparr>WrapFlag = False,
        WrapData = Allocated [0x30, 0x82, 0, 20, 0x06, 0x09,
                     0x2A, 0x86, 0x48, 0x86, 0xF7, 0x0D, 0x01, 0x07, 0x02,
                     0xA0, 0x82, 0, 5, 0, 0, 0, 0, 0],
        WrapDataSize = 24\<rparr>, [])"
    by (simp add: WrapPkcs7Data_def IsWrapped_def read8_def malloc_def wrap_locals_def
        WrapHeader_def)
qed

text \<open>
  C3. For an input of length \<open>L\<close> on which the detection answers "not wrapped", and a
  granted allocation, \<open>WrapPkcs7Data\<close> returns TRUE with a fresh buffer of \<open>L + 19\<close> bytes:
  30 82, the low 16 bits of \<open>L + 15\<close> in big-endian order, 06 09, the nine bytes of the
  OID, A0 82, the low 16 bits of \<open>L\<close> in big-endian order, then the input bytes. The
  reported size is \<open>L + 19\<close>; \<open>L + 19\<close> fits the 64 bits of \<open>UINTN\<close>, as the size of a
  buffer in memory does.
\<close>

theorem WrapPkcs7Data_bare_layout:
  assumes "IsWrapped P7Data = Some False"
    and "length P7Data + 19 < 2 ^ 64"
    and "grant al = (True, al')"
  shows "WrapPkcs7Data P7Data out al =
           Some (True,
             out\<lparr>WrapDataSize := word_of_nat (length P7Data + 19),
                 WrapData := Allocated
                   ([0x30, 0x82,
                     word_of_nat ((length P7Data + 15) div 256), word_of_nat (length P7Data + 15),
                     0x06, 0x09, 0x2A, 0x86, 0x48, 0x86, 0xF7, 0x0D, 0x01, 0x07, 0x02,
                     0xA0, 0x82,
                     word_of_nat (length P7Data div 256), word_of_nat (length P7Data)] @ P7Data),
                 WrapFlag := False\<rparr>, al') \<and>
         unat (word_of_nat (length P7Data + 19) :: UINTN) = length P7Data + 19"
proof -
  let ?L = "length P7Data"
  let ?P7Length = "word_of_nat ?L :: UINTN"
  let ?Size = "?P7Length + 19"
  have L: "unat ?P7Length = ?L"
    using assms(2) by (simp add: unat_UINTN)
  have Size: "?Size = word_of_nat (?L + 19)"
    by simp
  have uSize: "unat ?Size = ?L + 19"
    unfolding Size using assms(2) by (rule unat_UINTN)
  have Size4: "?Size - 4 = word_of_nat (?L + 15)"
    by simp
  have fill: "FillWrapper (replicate (?L + 19) 0) ?Size P7Data ?P7Length =
                Some (WrapHeader ?Size ?P7Length @ P7Data)"
    by (simp add: FillWrapper_long L)
  have hdr: "WrapHeader ?Size ?P7Length =
     [0x30, 0x82, word_of_nat ((?L + 15) div 256), word_of_nat (?L + 15),
      0x06, 0x09, 0x2A, 0x86, 0x48, 0x86, 0xF7, 0x0D, 0x01, 0x07, 0x02,
      0xA0, 0x82, word_of_nat (?L div 256), word_of_nat ?L]"
    unfolding WrapHeader_def Size4 by (simp only: hi_byte lo_byte)
  have "WrapPkcs7Data P7Data out al =
          Some (True, out\<lparr>WrapDataSize := ?Size,
                 WrapData := Allocated (WrapHeader ?Size ?P7Length @ P7Data),
                 WrapFlag := False\<rparr>, al')"
    using assms(1) fill
    by (simp add: WrapPkcs7Data_def Let_def malloc_granted [OF assms(3)] uSize del: of_nat_add)
  then show ?thesis
    unfolding hdr using uSize by (simp del: of_nat_add add: Size)
qed

text \<open>
  C4. When \<open>WrapPkcs7Data\<close> has wrapped a blob \<open>B\<close> (it returned TRUE with the flag FALSE),
  its output is a fresh buffer \<open>W\<close>, and \<open>WrapPkcs7Data\<close> applied to \<open>W\<close> returns TRUE with the
  flag TRUE, the pointer \<open>W\<close> itself and the size of \<open>W\<close>, without asking the allocator:
  no second wrapper is added.
\<close>

theorem WrapPkcs7Data_idempotent:
  assumes "WrapPkcs7Data B out al = Some (True, out', al')"
    and "\<not> WrapFlag out'"
  shows "\<exists>W. WrapData out' = Allocated W \<and>
           WrapPkcs7Data W out2 al2 =
             Some (True,
               out2\<lparr>WrapData := Borrowed W, WrapDataSize := WrapDataSize out',
                    WrapFlag := True\<rparr>, al2)"
proof -
  let ?Size = "(word_of_nat (length B) :: UINTN) + 19"
  from assms obtain W where
      fill: "FillWrapper (replicate (unat ?Size) 0) ?Size B (word_of_nat (length B)) = Some W"
      and out': "WrapData out' = Allocated W" "WrapDataSize out' = ?Size"
    by (auto simp add: WrapPkcs7Data_def malloc_def Let_def
        split: if_splits option.splits prod.splits Option.bind_splits)
  from FillWrapper_Some [OF fill] obtain rest where
      W: "W = WrapHeader ?Size (word_of_nat (length B)) @ rest" and len: "length W = unat ?Size"
    by blast
  have "IsWrapped W = Some True"
    unfolding W by (rule IsWrapped_header)
  moreover have "(word_of_nat (length W) :: UINTN) = ?Size"
    unfolding len by simp
  ultimately show ?thesis
    using out' by (simp add: WrapPkcs7Data_def)
qed

lemma IsWrapped_bare_example: "IsWrapped bare_example = Some False"
  by (simp add: IsWrapped_def read8_def bare_example_def)

lemma length_bare_example: "length bare_example = 17"
  by (simp add: bare_example_def)

theorem WrapPkcs7Data_bare_layout_witness:
  "IsWrapped bare_example = Some False \<and> length bare_example + 19 < (2::nat) ^ 64 \<and>
   grant [] = (True, []) \<and>
   WrapPkcs7Data bare_example wrap_locals [] =
     Some (True, \<lparr>WrapFlag = False, WrapData = Allocated wrapped_example, WrapDataSize = 36\<rparr>, [])"
  using WrapPkcs7Data_bare_layout [of bare_example "[]" "[]" wrap_locals]
  by (simp add: IsWrapped_bare_example length_bare_example wrapped_example_def wrap_locals_def)

lemma WrapPkcs7Data_bare_example:
  "WrapPkcs7Data bare_example wrap_locals [] =
     Some (True, \<lparr>WrapFlag = False, WrapData = Allocated wrapped_example, WrapDataSize = 36\<rparr>, [])"
proof -
  have "FillWrapper (replicate (17 + 19) 0) 36 bare_example 17 =
          Some (WrapHeader 36 17 @ bare_example)"
    by (simp only: FillWrapper_long) (simp add: length_bare_example)
  then show ?thesis
    by (simp add: WrapPkcs7Data_def IsWrapped_bare_example length_bare_example malloc_def
        wrap_locals_def WrapHeader_def wrapped_example_def)
qed

lemma WrapPkcs7Data_bare_example_granted:
  assumes "grant al = (True, al')"
  shows "WrapPkcs7Data bare_example wrap_locals al =
     Some (True, \<lparr>WrapFlag = False, WrapData = Allocated wrapped_example, WrapDataSize = 36\<rparr>, al')"
proof -
  have "FillWrapper (replicate (17 + 19) 0) 36 bare_example 17 =
          Some (WrapHeader 36 17 @ bare_example)"
    by (simp only: FillWrapper_long) (simp add: length_bare_example)
  then show ?thesis
    by (simp add: WrapPkcs7Data_def IsWrapped_bare_example length_bare_example
        malloc_granted [OF assms] wrap_locals_def WrapHeader_def wrapped_example_def)
qed

theorem WrapPkcs7Data_idempotent_witness:
  "WrapPkcs7Data bare_example wrap_locals [] =
     Some (True, \<lparr>WrapFlag = False, WrapData = Allocated wrapped_example, WrapDataSize = 36\<rparr>, []) \<and>
   WrapPkcs7Data wrapped_example wrap_locals [] =
     Some (True, \<lparr>WrapFlag = True, WrapData = Borrowed wrapped_example, WrapDataSize = 36\<rparr>, [])"
  using WrapPkcs7Data_idempotent [OF WrapPkcs7Data_bare_example, of wrap_locals "[]"]
  by (simp add: WrapPkcs7Data_bare_example [unfolded wrap_locals_def] wrap_locals_def)

lemma WrapPkcs7Data_wrapped:
  "IsWrapped P7Bytes = Some True \<Longrightarrow>
     WrapPkcs7Data P7Bytes out al =
       Some (True,
         out\<lparr>WrapData := Borrowed P7Bytes, WrapDataSize := word_of_nat (length P7Bytes),
             WrapFlag := True\<rparr>, al)"
  by (simp add: WrapPkcs7Data_def)

lemma unat_length_INT_MAX: "n \<le> INT_MAX \<Longrightarrow> unat (word_of_nat n :: UINTN) = n"
  by (rule unat_UINTN) (simp add: INT_MAX_def)

lemma WrapPkcs7Data_True_bare:
  "WrapPkcs7Data P7Bytes wout al = Some (True, w, al1) \<Longrightarrow> \<not> WrapFlag w \<Longrightarrow>
     \<exists>blk. WrapData w = Allocated blk"
  by (auto simp add: WrapPkcs7Data_def Let_def
      split: if_splits option.splits prod.splits Option.bind_splits)

lemma IsWrapped_wrapped_example: "IsWrapped wrapped_example = Some True"
  by (simp add: IsWrapped_def read8_def CompareMem_def mOidValue_def wrapped_example_def)

lemma length_wrapped_example: "length wrapped_example = 36"
  by (simp add: wrapped_example_def bare_example_def)

lemma wrapped_example_fits: "length wrapped_example \<le> INT_MAX"
  by (simp add: length_wrapped_example INT_MAX_def)


section \<open>The example certificates\<close>

lemma granted_Nil: "granted []"
  by (simp add: granted_def)

lemma valid_der_examples: "valid_der cert_A" "valid_der cert_B" "valid_der cert_C"
    "valid_der cert_A_copy"
  by (simp_all add: valid_der_def cert_A_def cert_B_def cert_C_def cert_A_copy_def)

lemma bare_example_sizes:
  "unat (word_of_nat (length bare_example) :: UINTN) \<le> INT_MAX"
  "unat (WrapDataSize \<lparr>WrapFlag = False, WrapData = Allocated wrapped_example,
                        WrapDataSize = 36\<rparr>) \<le> INT_MAX"
  by (simp_all add: length_bare_example INT_MAX_def)

lemma certlist_vars_given:
  "SignerChainCerts certlist_vars \<noteq> None" "ChainLength certlist_vars \<noteq> None"
  "UnchainCerts certlist_vars \<noteq> None" "UnchainLength certlist_vars \<noteq> None"
  by (simp_all add: certlist_vars_def)

lemma signers_vars_given:
  "CertStack signers_vars \<noteq> None" "StackLength signers_vars \<noteq> None"
  "TrustedCert signers_vars \<noteq> None" "CertLength signers_vars \<noteq> None"
  by (simp_all add: signers_vars_def)

lemma CertRecord_examples:
  "CertRecord cert_A = [1, 0, 0, 0, 0xAA]"
  "CertRecord cert_B = [2, 0, 0, 0, 0xBB, 0xBC]"
  "CertRecord cert_C = [3, 0, 0, 0, 0xCC, 0xCD, 0xCE]"
  "CertRecord cert_A_copy = [1, 0, 0, 0, 0xAA]"
  by (simp_all add: CertRecord_def UINT32_bytes_def cert_A_def cert_B_def cert_C_def
      cert_A_copy_def)

lemma der_length_examples:
  "length (der cert_A) = 1" "length (der cert_B) = 2" "length (der cert_C) = 3"
  by (simp_all add: cert_A_def cert_B_def cert_C_def)

lemma issuer_examples:
  "issuer cert_A = subject cert_B" "issuer cert_B = subject cert_C"
  "issuer cert_C = subject cert_C"
  by (simp_all add: cert_A_def cert_B_def cert_C_def)

lemma signed_data_simps:
  "type_is_signed (signed_data sis certs)" "signer_info (signed_data sis certs) = Some sis"
  "cert (signed_data sis certs) = Some certs"
  by (simp_all add: signed_data_def)

lemma distinct_examples:
  "distinct (map handle [cert_A, cert_B, cert_C])" "distinct (map der [cert_A, cert_B, cert_C])"
  by (simp_all add: cert_A_def cert_B_def cert_C_def)


lemma two_signers:
  "PKCS7_get0_signers (signed_data [signer_info_A, signer_info_B] [cert_A, cert_B]) [] =
     (Some [cert_A, cert_B], [])"
  by (simp add: PKCS7_get0_signers_def signed_data_def sk_num_def signer_info_A_def
      signer_info_B_def cert_A_def cert_B_def X509_find_by_issuer_and_serial_def)

section \<open>Facts about the serializer loop\<close>

lemma grant_granted: "granted al \<Longrightarrow> grant al = (True, tl al)"
  by (cases al) (auto simp add: granted_def)

lemma granted_tl: "granted al \<Longrightarrow> granted (tl al)"
  by (cases al) (auto simp add: granted_def)

lemma malloc_granted_tl: "granted al \<Longrightarrow> malloc n al = (Some (replicate n 0), tl al)"
  by (simp add: malloc_def grant_granted)

lemma sint_INT32: "n < 2 ^ 31 \<Longrightarrow> sint (word_of_nat n :: INT32) = int n"
  by (simp add: signed_of_nat signed_take_bit_int_eq_self)

lemma X509PopCertificate_Nil: "X509PopCertificate [] al = (None, [], al)"
  by (simp add: X509PopCertificate_def)

lemma X509PopCertificate_granted:
  assumes "granted al" and "valid_der x"
  shows "X509PopCertificate (xs @ [x]) al =
           (Some (der x, word_of_nat (length (der x))), xs, tl (tl (tl al)))"
proof -
  have s: "sint (word_of_nat (length (der x)) :: INT32) = int (length (der x))"
    using assms(2) by (simp add: valid_der_def sint_INT32)
  have pos: "0 < length (der x)"
    using assms(2) by (simp add: valid_der_def)
  show ?thesis
    using pos
    by (simp add: X509PopCertificate_def Let_def s grant_granted granted_tl assms(1)
        malloc_granted_tl)
qed

lemma CopyMem_append:
  "length a = off \<Longrightarrow> n \<le> length src \<Longrightarrow> n \<le> length b \<Longrightarrow>
     CopyMem (a @ b) off src n = Some (a @ take n src @ drop n b)"
  by (simp add: CopyMem_def)

lemma length_UINT32_bytes: "length (UINT32_bytes v) = 4"
  by (simp add: UINT32_bytes_def)

lemma length_CertRecord: "length (CertRecord c) = 4 + length (der c)"
  by (simp add: CertRecord_def length_UINT32_bytes)

lemma ucast_UINT32: "(ucast (word_of_nat n :: UINTN) :: UINT32) = word_of_nat n"
  by (rule bit_word_eqI) (auto simp add: bit_simps)

lemma X509PopCertificate_Some:
  assumes "X509PopCertificate (xs @ [x]) al = (Some r, Stack', al')"
    and "length (der x) < 2 ^ 31"
  shows "r = (der x, word_of_nat (length (der x))) \<and> Stack' = xs"
proof -
  have s: "sint (word_of_nat (length (der x)) :: INT32) = int (length (der x))"
    using assms(2) by (rule sint_INT32)
  show ?thesis
    using assms(1)
    by (auto simp add: X509PopCertificate_def Let_def s
        split: if_splits prod.splits option.splits)
qed

lemma malloc_Some: "malloc n al = (Some blk, al') \<Longrightarrow> blk = replicate n 0"
  by (auto simp add: malloc_def split: prod.splits if_splits)

lemma CertLoop_no_pop:
  "X509PopCertificate Stack al = (None, Stack', al') \<Longrightarrow>
     CertLoop Stack s al = Some (Drained, s, Stack', al')"
  by (subst CertLoop.simps) simp

lemma CertLoop_step_any:
  assumes pop: "X509PopCertificate (xs @ [x]) al = (Some r, Stack', al1)"
    and x: "length (der x) < 2 ^ 31"
    and buf: "CertBuf s = (if T = [] then None else Some (0 # T))"
    and size: "BufferSize s = word_of_nat (Suc (length T))"
    and fits: "Suc (length T) + length (CertRecord x) < 2 ^ 64"
    and m: "malloc (Suc (length T) + length (der x) + 4) al1 = (Some blk, al2)"
  shows "CertLoop (xs @ [x]) s al =
           CertLoop xs
             \<lparr>Index = Index s + 1, CertBuf = Some (0 # T @ CertRecord x), OldBuf = None,
              BufferSize = word_of_nat (Suc (length (T @ CertRecord x))),
              OldSize = word_of_nat (Suc (length T))\<rparr> al2"
proof -
  let ?n = "length (der x)"
  let ?old = "word_of_nat (Suc (length T)) :: UINTN"
  let ?new = "?old + word_of_nat ?n + 4"
  have pop': "X509PopCertificate (xs @ [x]) al = (Some (der x, word_of_nat ?n), xs, al1)"
    using X509PopCertificate_Some [OF pop x] pop by simp
  have m': "malloc (Suc (length T) + ?n + 4) al1 =
              (Some (replicate (Suc (length T) + ?n + 4) 0), al2)"
    using m malloc_Some [OF m] by simp
  have n: "?n < 2 ^ 64" "Suc (length T) < 2 ^ 64"
    using fits by (simp_all add: length_CertRecord)
  have new: "?new = word_of_nat (Suc (length T) + ?n + 4)"
    by simp
  have unew: "unat ?new = Suc (length T) + ?n + 4"
    unfolding new using fits by (intro unat_UINTN) (simp add: length_CertRecord)
  have uold: "unat ?old = Suc (length T)"
    using n by (intro unat_UINTN)
  have un: "unat (word_of_nat ?n :: UINTN) = ?n"
    using n by (intro unat_UINTN)
  have blk0: "replicate (Suc (length T) + ?n + 4) (0::UINT8) =
               (0 # replicate (length T) 0) @ replicate (?n + 4) 0"
    unfolding add.assoc by (simp only: replicate_add replicate_Suc)
  have c1: "(case CertBuf s of None \<Rightarrow> Some (replicate (Suc (length T) + ?n + 4) 0)
             | Some old \<Rightarrow> CopyMem (replicate (Suc (length T) + ?n + 4) 0) 0 old (Suc (length T)))
            = Some ((0 # T) @ replicate (?n + 4) 0)"
  proof (cases "T = []")
    case True
    then show ?thesis
      unfolding blk0 by (simp add: buf)
  next
    case False
    then show ?thesis
      unfolding blk0 by (simp add: buf CopyMem_def)
  qed
  have c2: "WriteUnaligned32 ((0 # T) @ replicate (?n + 4) 0) (Suc (length T)) (word_of_nat ?n) =
              Some ((0 # T) @ UINT32_bytes (word_of_nat ?n) @ replicate ?n 0)"
    unfolding WriteUnaligned32_def
    by (subst CopyMem_append) (simp_all add: length_UINT32_bytes)
  have c3: "CopyMem ((0 # T) @ UINT32_bytes (word_of_nat ?n) @ replicate ?n 0)
              (Suc (length T) + 4) (der x) ?n =
            Some ((0 # T) @ UINT32_bytes (word_of_nat ?n) @ der x)"
    using CopyMem_append [of "(0 # T) @ UINT32_bytes (word_of_nat ?n)" "Suc (length T) + 4"
        ?n "der x" "replicate ?n 0"]
    by (simp add: length_UINT32_bytes)
  show ?thesis
    apply (subst CertLoop.simps)
    apply (simp only: pop' prod.case option.case Let_def size m'
        unew uold un c1 ucast_UINT32 c2 c3 Option.bind.simps)
    apply (simp add: CertRecord_def length_UINT32_bytes)
    done
qed


lemma CertLoop_step:
  assumes al: "granted al"
    and x: "valid_der x"
    and buf: "CertBuf s = (if T = [] then None else Some (0 # T))"
    and size: "BufferSize s = word_of_nat (Suc (length T))"
    and fits: "Suc (length T) + length (CertRecord x) < 2 ^ 64"
  shows "CertLoop (xs @ [x]) s al =
           CertLoop xs
             \<lparr>Index = Index s + 1, CertBuf = Some (0 # T @ CertRecord x), OldBuf = None,
              BufferSize = word_of_nat (Suc (length (T @ CertRecord x))),
              OldSize = word_of_nat (Suc (length T))\<rparr>
             (tl (tl (tl (tl al))))"
proof -
  have d: "length (der x) < 2 ^ 31"
    using x by (simp add: valid_der_def)
  show ?thesis
    by (rule CertLoop_step_any
        [OF X509PopCertificate_granted [OF al x] d buf size fits
          malloc_granted_tl [OF granted_tl [OF granted_tl [OF granted_tl [OF al]]]]])
qed

lemma CertRecords_Nil: "CertRecords [] = []"
  by (simp add: CertRecords_def)

lemma CertRecords_Cons: "CertRecords (c # cs) = CertRecord c @ CertRecords cs"
  by (simp add: CertRecords_def)

lemma CertLoop_Nil: "CertLoop [] s al = Some (Drained, s, [], al)"
  by (subst CertLoop.simps) (simp add: X509PopCertificate_Nil)

lemma CertLoop_granted:
  assumes "granted al"
    and "\<forall>c \<in> set Stack. valid_der c"
    and "CertBuf s = (if T = [] then None else Some (0 # T))"
    and "BufferSize s = word_of_nat (Suc (length T))"
    and "Suc (length T) + length (CertRecords (rev Stack)) < 2 ^ 64"
  shows "\<exists>s' al'. CertLoop Stack s al = Some (Drained, s', [], al') \<and> granted al' \<and>
           CertBuf s' = (if T @ CertRecords (rev Stack) = [] then None
                         else Some (0 # T @ CertRecords (rev Stack))) \<and>
           BufferSize s' = word_of_nat (Suc (length T + length (CertRecords (rev Stack)))) \<and>
           Index s' = Index s + word_of_nat (length Stack) \<and>
           (Stack \<noteq> [] \<longrightarrow>
              OldSize s' = word_of_nat (Suc (length T + length (CertRecords (rev (tl Stack))))))"
  using assms
proof (induction Stack arbitrary: s T al rule: rev_induct)
  case Nil
  then show ?case
    by (simp add: CertLoop_Nil CertRecords_Nil)
next
  case (snoc x xs)
  let ?T = "T @ CertRecord x"
  let ?s = "\<lparr>Index = Index s + 1, CertBuf = Some (0 # ?T), OldBuf = None,
             BufferSize = word_of_nat (Suc (length ?T)),
             OldSize = word_of_nat (Suc (length T))\<rparr>"
  let ?al = "tl (tl (tl (tl al)))"
  have x: "valid_der x" and xs: "\<forall>c \<in> set xs. valid_der c"
    using snoc.prems(2) by simp_all
  have recs: "CertRecords (rev (xs @ [x])) = CertRecord x @ CertRecords (rev xs)"
    by (simp add: CertRecords_Cons)
  have fits: "Suc (length T) + length (CertRecord x) < 2 ^ 64"
    using snoc.prems(5) unfolding recs by simp
  have step: "CertLoop (xs @ [x]) s al = CertLoop xs ?s ?al"
    by (rule CertLoop_step [OF snoc.prems(1) x snoc.prems(3) snoc.prems(4) fits])
  have ne: "CertRecord x \<noteq> []"
    by (simp add: CertRecord_def UINT32_bytes_def)
  then have T: "?T \<noteq> []"
    by simp
  have "\<exists>s' al'. CertLoop xs ?s ?al = Some (Drained, s', [], al') \<and> granted al' \<and>
           CertBuf s' = (if ?T @ CertRecords (rev xs) = [] then None
                         else Some (0 # ?T @ CertRecords (rev xs))) \<and>
           BufferSize s' = word_of_nat (Suc (length ?T + length (CertRecords (rev xs)))) \<and>
           Index s' = Index ?s + word_of_nat (length xs) \<and>
           (xs \<noteq> [] \<longrightarrow>
              OldSize s' = word_of_nat (Suc (length ?T + length (CertRecords (rev (tl xs))))))"
  proof (rule snoc.IH)
    show "granted ?al"
      by (intro granted_tl snoc.prems(1))
    show "\<forall>c \<in> set xs. valid_der c"
      by (rule xs)
    show "CertBuf ?s = (if ?T = [] then None else Some (0 # ?T))"
      using T by simp
    show "BufferSize ?s = word_of_nat (Suc (length ?T))"
      by simp
    show "Suc (length ?T) + length (CertRecords (rev xs)) < 2 ^ 64"
      using snoc.prems(5) unfolding recs by simp
  qed
  then obtain s' al' where
      run: "CertLoop xs ?s ?al = Some (Drained, s', [], al')" and al': "granted al'"
      and buf: "CertBuf s' = Some (0 # ?T @ CertRecords (rev xs))"
      and size: "BufferSize s' = word_of_nat (Suc (length ?T + length (CertRecords (rev xs))))"
      and idx: "Index s' = Index ?s + word_of_nat (length xs)"
      and old: "xs \<noteq> [] \<Longrightarrow>
                  OldSize s' = word_of_nat (Suc (length ?T + length (CertRecords (rev (tl xs)))))"
    using T by auto
  have old': "OldSize s' = word_of_nat (Suc (length T + length (CertRecords (rev (tl (xs @ [x]))))))"
  proof (cases "xs = []")
    case True
    with run show ?thesis
      by (auto simp add: CertLoop_Nil CertRecords_Nil)
  next
    case False
    then have "rev (tl (xs @ [x])) = x # rev (tl xs)"
      by simp
    then show ?thesis
      using old [OF False] by (simp add: CertRecords_Cons)
  qed
  show ?case
    unfolding step recs using run al' buf size idx old' ne
    by simp
qed

lemma length_CertRecords:
  "length (CertRecords cs) = (\<Sum>c\<leftarrow>cs. 4 + length (der c))"
  by (induction cs) (simp_all add: CertRecords_Nil CertRecords_Cons length_CertRecord)


lemma length_CertRecords_bound:
  "\<forall>c \<in> set cs. valid_der c \<Longrightarrow> length (CertRecords cs) \<le> length cs * (4 + 2 ^ 31)"
  by (induction cs) (auto simp add: CertRecords_Nil CertRecords_Cons length_CertRecord valid_der_def)

lemma grant_eq: "grant al = (ok, al') \<longleftrightarrow> (ok \<longleftrightarrow> al = [] \<or> hd al) \<and> al' = tl al"
  by (cases al) auto

lemma granted_hd: "granted al \<Longrightarrow> al = [] \<or> hd al"
  by (cases al) (auto simp add: granted_def)

lemma WrapPkcs7Data_granted:
  "WrapPkcs7Data P7Bytes wout al = Some (Status, wout', al') \<Longrightarrow> granted al \<Longrightarrow> granted al'"
  by (auto simp add: WrapPkcs7Data_def Let_def malloc_def grant_eq granted_tl
      split: if_splits option.splits prod.splits Option.bind_splits)

lemma PKCS7_get0_signers_granted:
  "PKCS7_get0_signers p7 al = (Signers, al') \<Longrightarrow> granted al \<Longrightarrow> granted al'"
  by (auto simp add: PKCS7_get0_signers_def grant_eq granted_tl
      split: if_splits option.splits prod.splits)

lemma CertLoop_start_granted:
  assumes "granted al" and "\<forall>c \<in> set Stack. valid_der c" and "length Stack \<le> 255"
  shows "\<exists>s al'. CertLoop Stack loop_start al = Some (Drained, s, [], al') \<and> granted al' \<and>
           CertBuf s = (if Stack = [] then None else Some (0 # CertRecords (rev Stack))) \<and>
           BufferSize s = word_of_nat (Suc (length (CertRecords (rev Stack)))) \<and>
           Index s = word_of_nat (length Stack) \<and>
           (Stack \<noteq> [] \<longrightarrow>
              OldSize s = word_of_nat (Suc (length (CertRecords (rev (tl Stack))))))"
proof -
  have "length (CertRecords (rev Stack)) \<le> length (rev Stack) * (4 + 2 ^ 31)"
    by (rule length_CertRecords_bound) (use assms(2) in simp)
  also have "\<dots> \<le> 255 * (4 + 2 ^ 31)"
    using assms(3) by (intro mult_le_mono1) simp
  finally have bound: "Suc (length ([]::UINT8 list)) + length (CertRecords (rev Stack)) < 2 ^ 64"
    by simp
  have ne: "CertRecords (rev Stack) = [] \<longleftrightarrow> Stack = []"
    by (cases "rev Stack")
      (auto simp add: CertRecords_Nil CertRecords_Cons CertRecord_def UINT32_bytes_def)
  have p1: "CertBuf loop_start = (if ([]::UINT8 list) = [] then None else Some (0 # []))"
    by (simp add: loop_start_def)
  have p2: "BufferSize loop_start = word_of_nat (Suc (length ([]::UINT8 list)))"
    by (simp add: loop_start_def)
  obtain s al' where run: "CertLoop Stack loop_start al = Some (Drained, s, [], al')"
      and gr: "granted al'"
      and buf: "CertBuf s = (if [] @ CertRecords (rev Stack) = [] then None
                             else Some (0 # [] @ CertRecords (rev Stack)))"
      and size: "BufferSize s =
                  word_of_nat (Suc (length ([]::UINT8 list) + length (CertRecords (rev Stack))))"
      and idx: "Index s = Index loop_start + word_of_nat (length Stack)"
      and old: "Stack \<noteq> [] \<longrightarrow> OldSize s =
                  word_of_nat (Suc (length ([]::UINT8 list) + length (CertRecords (rev (tl Stack)))))"
    using CertLoop_granted [OF assms(1) assms(2) p1 p2 bound] by blast
  have "CertBuf s = (if Stack = [] then None else Some (0 # CertRecords (rev Stack)))"
    using buf ne by simp
  moreover have "BufferSize s = word_of_nat (Suc (length (CertRecords (rev Stack))))"
    using size by simp
  moreover have "Index s = word_of_nat (length Stack)"
    using idx by (simp add: loop_start_def)
  moreover have "Stack \<noteq> [] \<longrightarrow>
      OldSize s = word_of_nat (Suc (length (CertRecords (rev (tl Stack)))))"
    using old by simp
  ultimately show ?thesis
    using run gr by blast
qed

lemma length_CertList: "length (CertList Stack) = Suc (length (CertRecords (rev Stack)))"
  by (simp add: CertList_def)

lemma GetCertificatesList_unchained_granted:
  assumes "granted al" and "\<forall>c \<in> set U. valid_der c" and "length U \<le> 255"
  shows "\<exists>cb al'. granted al' \<and>
           GetCertificatesList_unchained (Some U) cb0 out al =
             Some (True, cb,
               (if U = [] then out
                else out\<lparr>UnchainCerts := Some (Allocated (CertList U)),
                         UnchainLength := Some (word_of_nat (length (CertList U)))\<rparr>), al')"
proof -
  from CertLoop_start_granted [OF assms] obtain s al' where
      run: "CertLoop U loop_start al = Some (Drained, s, [], al')" and gr: "granted al'"
      and buf: "CertBuf s = (if U = [] then None else Some (0 # CertRecords (rev U)))"
      and size: "BufferSize s = word_of_nat (Suc (length (CertRecords (rev U))))"
      and idx: "Index s = word_of_nat (length U)"
    by blast
  show ?thesis
    using gr
    by (auto simp add: GetCertificatesList_unchained_def run buf size idx write8_def CertList_def)
qed

lemma GetCertificatesList_lists_granted:
  assumes "granted al" and "\<forall>c \<in> set Chain. valid_der c" and "length Chain \<le> 255"
    and "Chain \<noteq> []" and "\<forall>c \<in> set U. valid_der c" and "length U \<le> 255"
  shows "\<exists>cb al'. granted al' \<and>
           GetCertificatesList_lists Chain (Some U) out al =
             Some (True, cb,
               (if U = []
                then out\<lparr>SignerChainCerts := Some (Allocated (CertList Chain)),
                         ChainLength := Some (word_of_nat (length (CertList Chain)))\<rparr>
                else out\<lparr>SignerChainCerts := Some (Allocated (CertList Chain)),
                         ChainLength := Some (word_of_nat (length (CertList Chain))),
                         UnchainCerts := Some (Allocated (CertList U)),
                         UnchainLength := Some (word_of_nat (length (CertList U)))\<rparr>), al')"
proof -
  from CertLoop_start_granted [OF assms(1-3)] assms(4) obtain s al1 where
      run: "CertLoop Chain loop_start al = Some (Drained, s, [], al1)" and gr: "granted al1"
      and buf: "CertBuf s = Some (0 # CertRecords (rev Chain))"
      and size: "BufferSize s = word_of_nat (Suc (length (CertRecords (rev Chain))))"
      and idx: "Index s = word_of_nat (length Chain)"
    by auto
  let ?out = "out\<lparr>SignerChainCerts := Some (Allocated (CertList Chain)),
                   ChainLength := Some (word_of_nat (length (CertList Chain)))\<rparr>"
  from GetCertificatesList_unchained_granted [OF gr assms(5,6), of "CertBuf s" ?out]
  obtain cb al' where "granted al'"
      "GetCertificatesList_unchained (Some U) (CertBuf s) ?out al1 =
         Some (True, cb,
           (if U = [] then ?out
            else ?out\<lparr>UnchainCerts := Some (Allocated (CertList U)),
                      UnchainLength := Some (word_of_nat (length (CertList U)))\<rparr>), al')"
    by blast
  then show ?thesis
    by (auto simp add: GetCertificatesList_lists_def run buf size idx write8_def CertList_def)
qed

lemma CertRecords_append: "CertRecords (a @ b) = CertRecords a @ CertRecords b"
  by (simp add: CertRecords_def)




section \<open>The published lists\<close>

lemma GetSigners_list_granted:
  assumes "granted al" and "\<forall>c \<in> set (x # xs). valid_der c" and "length (x # xs) \<le> 255"
  shows "\<exists>al'. granted al' \<and>
           GetSigners_list (x # xs) out al =
             Some (True, Some (CertList (x # xs)),
               out\<lparr>CertLength := Some (word_of_nat (length (der x))),
                   TrustedCert := Some (Allocated (der x)),
                   CertStack := Some (Allocated (CertList (x # xs))),
                   StackLength := Some (word_of_nat (length (CertList (x # xs))))\<rparr>, al')"
proof -
  let ?R = "CertRecords (rev xs)"
  let ?d = "length (der x)"
  let ?N = "word_of_nat (length (x # xs)) :: UINT8"
  from CertLoop_start_granted [OF assms] obtain s al1 where
      run: "CertLoop (x # xs) loop_start al = Some (Drained, s, [], al1)" and gr: "granted al1"
      and buf: "CertBuf s = Some (0 # CertRecords (rev (x # xs)))"
      and size: "BufferSize s = word_of_nat (Suc (length (CertRecords (rev (x # xs)))))"
      and idx: "Index s = word_of_nat (length (x # xs))"
      and old: "OldSize s = word_of_nat (Suc (length (CertRecords (rev (tl (x # xs))))))"
    by auto
  have recs: "CertRecords (rev (x # xs)) = ?R @ CertRecord x"
    by (simp add: CertRecords_append CertRecords_Cons CertRecords_Nil)
  have "length (CertRecords (rev (x # xs))) \<le> length (rev (x # xs)) * (4 + 2 ^ 31)"
    by (rule length_CertRecords_bound) (use assms(2) in simp)
  also have "\<dots> \<le> 255 * (4 + 2 ^ 31)"
    using assms(3) by (intro mult_le_mono1) simp
  finally have bound: "Suc (length ?R + length (CertRecord x)) < 2 ^ 64"
    unfolding recs by simp
  have d: "?d < 2 ^ 31"
    using assms(2) by (simp add: valid_der_def)
  have Len: "BufferSize s - OldSize s - 4 = (word_of_nat ?d :: UINTN)"
    unfolding size old recs by (simp add: length_CertRecord)
  have uLen: "unat (word_of_nat ?d :: UINTN) = ?d"
    using d by (intro unat_UINTN) simp
  have uOld: "unat (OldSize s) = Suc (length ?R)"
    unfolding old list.sel by (rule unat_UINTN) (use bound in simp)
  have w: "write8 (0 # CertRecords (rev (x # xs))) 0 (Index s) = Some (CertList (x # xs))"
    by (simp add: write8_def idx CertList_def)
  have cl: "CertList (x # xs) = (?N # ?R @ UINT32_bytes (word_of_nat ?d)) @ der x"
    by (simp add: CertList_def CertRecords_append CertRecords_Cons CertRecords_Nil
        CertRecord_def)
  have hl: "Suc (length ?R) + 4 = length (?N # ?R @ UINT32_bytes (word_of_nat ?d))"
    by (simp add: length_UINT32_bytes)
  have dr: "drop (Suc (length ?R) + 4) (CertList (x # xs)) = der x"
    unfolding cl hl by (metis append_eq_conv_conj)
  have cp: "CopyMem (replicate ?d 0) 0 (der x) ?d = Some (der x)"
    by (simp add: CopyMem_def)
  have size': "BufferSize s = word_of_nat (length (CertList (x # xs)))"
    unfolding size by (simp add: length_CertList)
  have "GetSigners_list (x # xs) out al =
             Some (True, Some (CertList (x # xs)),
               out\<lparr>CertLength := Some (word_of_nat (length (der x))),
                   TrustedCert := Some (Allocated (der x)),
                   CertStack := Some (Allocated (CertList (x # xs))),
                   StackLength := Some (word_of_nat (length (CertList (x # xs))))\<rparr>, tl al1)"
    unfolding GetSigners_list_def
    by (simp only: run buf w Len Len [unfolded size'] uLen uOld malloc_granted_tl [OF gr]
        dr cp size' Let_def Option.bind.simps prod.case loop_exit.case option.case)
  with granted_tl [OF gr] show ?thesis
    by blast
qed

lemma Pkcs7GetSigners_granted_run:
  assumes "WrapPkcs7Data P7Bytes wrap_locals al = Some (True, w, al1)"
    and "length P7Bytes \<le> INT_MAX" and "unat (WrapDataSize w) \<le> INT_MAX"
    and "CertStack out \<noteq> None" and "StackLength out \<noteq> None"
    and "TrustedCert out \<noteq> None" and "CertLength out \<noteq> None"
    and "dec (bytes_of (WrapData w)) = Some p7" and "type_is_signed p7"
    and "PKCS7_get0_signers p7 al1 = (Some (x # xs), al2)"
    and "granted al"
    and "\<forall>c \<in> set (x # xs). valid_der c" and "length (x # xs) \<le> 255"
  shows "\<exists>al'. Pkcs7GetSigners dec (Some P7Bytes) out al =
           Some (True,
             out\<lparr>CertLength := Some (word_of_nat (length (der x))),
                 TrustedCert := Some (Allocated (der x)),
                 CertStack := Some (Allocated (CertList (x # xs))),
                 StackLength := Some (word_of_nat (length (CertList (x # xs))))\<rparr>, al')"
proof -
  have al1: "granted al1"
    using assms(1,11) by (rule WrapPkcs7Data_granted)
  have al2: "granted al2"
    using assms(10) al1 by (rule PKCS7_get0_signers_granted)
  from GetSigners_list_granted [OF al2 assms(12,13), of out] obtain al' where
      list: "GetSigners_list (x # xs) out al2 =
             Some (True, Some (CertList (x # xs)),
               out\<lparr>CertLength := Some (word_of_nat (length (der x))),
                   TrustedCert := Some (Allocated (der x)),
                   CertStack := Some (Allocated (CertList (x # xs))),
                   StackLength := Some (word_of_nat (length (CertList (x # xs))))\<rparr>, al')"
    by blast
  have "Pkcs7GetSigners dec (Some P7Bytes) out al =
           Some (True,
             out\<lparr>CertLength := Some (word_of_nat (length (der x))),
                 TrustedCert := Some (Allocated (der x)),
                 CertStack := Some (Allocated (CertList (x # xs))),
                 StackLength := Some (word_of_nat (length (CertList (x # xs))))\<rparr>, al')"
    using assms(1-10) list
    by (simp add: Pkcs7GetSigners_def GetSigners_body_def GetSigners_Exit_def
        unat_length_INT_MAX not_less [symmetric] del: CertList_def)
  then show ?thesis
    by blast
qed

text \<open>
  C5. Every allocation is granted. The certificates \<open>c1 .. cN\<close> (\<open>1 \<le> N \<le> 255\<close>, every
  encoding non-empty and shorter than \<open>2^31\<close> bytes) are in pop order. When
  \<open>PKCS7_get0_signers\<close> returns the stack that pops them in this order, \<open>Pkcs7GetSigners\<close>
  returns TRUE; \<open>CertStack\<close> is a fresh buffer whose first byte is \<open>N\<close>, followed by the
  records (four bytes of length, then the encoding) of \<open>c1 .. cN\<close> in this order and by
  nothing else; \<open>StackLength\<close> is its size \<open>1 + \<Sum> (4 + |ci|)\<close>; \<open>TrustedCert\<close> is a copy of
  the encoding of the last record, with its size in \<open>CertLength\<close>. Lines 655 to 743 of
  \<open>Pkcs7GetCertificatesList\<close> publish the same buffer and size for a chain stack in
  \<open>SignerChainCerts\<close> and \<open>ChainLength\<close>, and the list of a pool \<open>d1 .. dM\<close> (\<open>M \<le> 255\<close>) in
  \<open>UnchainCerts\<close> and \<open>UnchainLength\<close> when the pool is not empty.
\<close>

theorem serialized_list_exact:
  assumes "WrapPkcs7Data P7Bytes wrap_locals al = Some (True, w, al1)"
    and "length P7Bytes \<le> INT_MAX" and "unat (WrapDataSize w) \<le> INT_MAX"
    and "CertStack sout \<noteq> None" and "StackLength sout \<noteq> None"
    and "TrustedCert sout \<noteq> None" and "CertLength sout \<noteq> None"
    and "decode (bytes_of (WrapData w)) = Some p7" and "type_is_signed p7"
    and "PKCS7_get0_signers p7 al1 = (Some (rev cs), al2)"
    and "granted al"
    and "\<forall>c \<in> set cs. valid_der c" and "1 \<le> length cs" and "length cs \<le> 255"
    and "\<forall>c \<in> set ds. valid_der c" and "length ds \<le> 255"
  shows "(\<exists>al'. Pkcs7GetSigners decode (Some P7Bytes) sout al =
            Some (True,
              sout\<lparr>CertLength := Some (word_of_nat (length (der (last cs)))),
                   TrustedCert := Some (Allocated (der (last cs))),
                   CertStack := Some (Allocated (word_of_nat (length cs) # CertRecords cs)),
                   StackLength :=
                     Some (word_of_nat (1 + (\<Sum>c\<leftarrow>cs. 4 + length (der c))))\<rparr>, al')) \<and>
         (\<exists>cb al'. GetCertificatesList_lists (rev cs) (Some (rev ds)) cout al =
            Some (True, cb,
              (if ds = []
               then cout\<lparr>SignerChainCerts :=
                            Some (Allocated (word_of_nat (length cs) # CertRecords cs)),
                          ChainLength :=
                            Some (word_of_nat (1 + (\<Sum>c\<leftarrow>cs. 4 + length (der c))))\<rparr>
               else cout\<lparr>SignerChainCerts :=
                            Some (Allocated (word_of_nat (length cs) # CertRecords cs)),
                          ChainLength :=
                            Some (word_of_nat (1 + (\<Sum>c\<leftarrow>cs. 4 + length (der c)))),
                          UnchainCerts :=
                            Some (Allocated (word_of_nat (length ds) # CertRecords ds)),
                          UnchainLength :=
                            Some (word_of_nat (1 + (\<Sum>c\<leftarrow>ds. 4 + length (der c))))\<rparr>),
              al')) \<and>
         length (word_of_nat (length cs) # CertRecords cs) =
           1 + (\<Sum>c\<leftarrow>cs. 4 + length (der c)) \<and>
         unat (word_of_nat (length cs) :: UINT8) = length cs \<and>
         unat (word_of_nat (1 + (\<Sum>c\<leftarrow>cs. 4 + length (der c))) :: UINTN) =
           1 + (\<Sum>c\<leftarrow>cs. 4 + length (der c))"
proof -
  from assms(13) obtain x xs where st: "rev cs = x # xs"
    by (cases "rev cs") auto
  then have x: "x = last cs"
    by (metis last_rev list.sel(1) rev_rev_ident)
  have lc: "CertList (rev cs) = word_of_nat (length cs) # CertRecords cs"
    by (simp add: CertList_def)
  have ld: "CertList (rev ds) = word_of_nat (length ds) # CertRecords ds"
    by (simp add: CertList_def)
  have nc: "length (CertList (rev cs)) = 1 + (\<Sum>c\<leftarrow>cs. 4 + length (der c))"
    unfolding lc by (simp add: length_CertRecords)
  have nd: "length (CertList (rev ds)) = 1 + (\<Sum>c\<leftarrow>ds. 4 + length (der c))"
    unfolding ld by (simp add: length_CertRecords)
  have v: "\<forall>c \<in> set (x # xs). valid_der c" and l: "length (x # xs) \<le> 255"
    using assms(12,14) unfolding st [symmetric] by simp_all
  have 1: "\<exists>al'. Pkcs7GetSigners decode (Some P7Bytes) sout al =
            Some (True,
              sout\<lparr>CertLength := Some (word_of_nat (length (der (last cs)))),
                   TrustedCert := Some (Allocated (der (last cs))),
                   CertStack := Some (Allocated (word_of_nat (length cs) # CertRecords cs)),
                   StackLength :=
                     Some (word_of_nat (1 + (\<Sum>c\<leftarrow>cs. 4 + length (der c))))\<rparr>, al')"
    using Pkcs7GetSigners_granted_run
      [where dec = decode and ?p7.0 = p7, OF assms(1-7) assms(8) assms(9)
        assms(10) [unfolded st] assms(11) v l, folded st, unfolded x, unfolded nc,
        unfolded lc] .
  have vc: "\<forall>c \<in> set (rev cs). valid_der c" and vd: "\<forall>c \<in> set (rev ds). valid_der c"
    using assms(12,15) by simp_all
  have lcs: "length (rev cs) \<le> 255" "rev cs \<noteq> []" "length (rev ds) \<le> 255"
    using assms(13,14,16) by auto
  have 2: "\<exists>cb al'. GetCertificatesList_lists (rev cs) (Some (rev ds)) cout al =
            Some (True, cb,
              (if ds = []
               then cout\<lparr>SignerChainCerts :=
                            Some (Allocated (word_of_nat (length cs) # CertRecords cs)),
                          ChainLength :=
                            Some (word_of_nat (1 + (\<Sum>c\<leftarrow>cs. 4 + length (der c))))\<rparr>
               else cout\<lparr>SignerChainCerts :=
                            Some (Allocated (word_of_nat (length cs) # CertRecords cs)),
                          ChainLength :=
                            Some (word_of_nat (1 + (\<Sum>c\<leftarrow>cs. 4 + length (der c)))),
                          UnchainCerts :=
                            Some (Allocated (word_of_nat (length ds) # CertRecords ds)),
                          UnchainLength :=
                            Some (word_of_nat (1 + (\<Sum>c\<leftarrow>ds. 4 + length (der c))))\<rparr>),
              al')"
    using GetCertificatesList_lists_granted
      [OF assms(11) vc lcs(1,2) vd lcs(3), of cout, unfolded nc nd, unfolded lc ld,
        unfolded rev_is_Nil_conv] by blast
  have "length (CertRecords cs) \<le> length cs * (4 + 2 ^ 31)"
    by (rule length_CertRecords_bound [OF assms(12)])
  also have "\<dots> \<le> 255 * (4 + 2 ^ 31)"
    using assms(14) by (rule mult_le_mono1)
  finally have "1 + (\<Sum>c\<leftarrow>cs. 4 + length (der c)) < 2 ^ 64"
    by (simp add: length_CertRecords)
  then have 5: "unat (word_of_nat (1 + (\<Sum>c\<leftarrow>cs. 4 + length (der c))) :: UINTN) =
           1 + (\<Sum>c\<leftarrow>cs. 4 + length (der c))"
    by (rule unat_UINTN)
  have 4: "unat (word_of_nat (length cs) :: UINT8) = length cs"
    using assms(14) by (simp add: unat_of_nat)
  have 3: "length (word_of_nat (length cs) # CertRecords cs) =
             1 + (\<Sum>c\<leftarrow>cs. 4 + length (der c))"
    using nc unfolding lc .
  show ?thesis
    by (intro conjI 1 2 3 4 5)
qed

theorem serialized_list_exact_witness:
  "granted [] \<and> valid_der cert_A \<and> valid_der cert_B \<and> valid_der cert_C \<and>
   PKCS7_get0_signers (signed_data [signer_info_A, signer_info_B] [cert_A, cert_B]) [] =
     (Some [cert_A, cert_B], []) \<and>
   (\<exists>al'. Pkcs7GetSigners
       (\<lambda>bytes. Some (signed_data [signer_info_A, signer_info_B] [cert_A, cert_B]))
       (Some bare_example) signers_vars [] =
      Some (True,
        \<lparr>CertStack = Some (Allocated [2, 2, 0, 0, 0, 0xBB, 0xBC, 1, 0, 0, 0, 0xAA]),
         StackLength = Some 12, TrustedCert = Some (Allocated [0xAA]),
         CertLength = Some 1\<rparr>, al')) \<and>
   (\<exists>cb al'. GetCertificatesList_lists [cert_A, cert_B] (Some [cert_C]) certlist_vars [] =
      Some (True, cb,
        \<lparr>SignerChainCerts = Some (Allocated [2, 2, 0, 0, 0, 0xBB, 0xBC, 1, 0, 0, 0, 0xAA]),
         ChainLength = Some 12,
         UnchainCerts = Some (Allocated [1, 3, 0, 0, 0, 0xCC, 0xCD, 0xCE]),
         UnchainLength = Some 8\<rparr>, al'))"
proof -
  have r: "CertRecords [cert_B, cert_A] = [2, 0, 0, 0, 0xBB, 0xBC, 1, 0, 0, 0, 0xAA]"
      "CertRecords [cert_C] = [3, 0, 0, 0, 0xCC, 0xCD, 0xCE]"
    by (simp_all add: CertRecords_def CertRecord_examples)
  have der_A: "der cert_A = [0xAA]"
    by (simp add: cert_A_def)
  have v: "\<forall>c \<in> set [cert_B, cert_A]. valid_der c" "\<forall>c \<in> set [cert_C]. valid_der c"
    by (simp_all add: valid_der_examples)
  have s: "PKCS7_get0_signers (signed_data [signer_info_A, signer_info_B] [cert_A, cert_B]) [] =
             (Some (rev [cert_B, cert_A]), [])"
    by (simp add: two_signers)
  note t = serialized_list_exact
    [where decode = "\<lambda>bytes. Some (signed_data [signer_info_A, signer_info_B] [cert_A, cert_B])"
       and ?p7.0 = "signed_data [signer_info_A, signer_info_B] [cert_A, cert_B]"
       and cs = "[cert_B, cert_A]" and ds = "[cert_C]" and cout = certlist_vars,
     OF WrapPkcs7Data_bare_example _ _ signers_vars_given refl _ s granted_Nil v(1) _ _ v(2)]
  have "(\<exists>al'. Pkcs7GetSigners
       (\<lambda>bytes. Some (signed_data [signer_info_A, signer_info_B] [cert_A, cert_B]))
       (Some bare_example) signers_vars [] =
      Some (True,
        \<lparr>CertStack = Some (Allocated [2, 2, 0, 0, 0, 0xBB, 0xBC, 1, 0, 0, 0, 0xAA]),
         StackLength = Some 12, TrustedCert = Some (Allocated [0xAA]),
         CertLength = Some 1\<rparr>, al')) \<and>
   (\<exists>cb al'. GetCertificatesList_lists [cert_A, cert_B] (Some [cert_C]) certlist_vars [] =
      Some (True, cb,
        \<lparr>SignerChainCerts = Some (Allocated [2, 2, 0, 0, 0, 0xBB, 0xBC, 1, 0, 0, 0, 0xAA]),
         ChainLength = Some 12,
         UnchainCerts = Some (Allocated [1, 3, 0, 0, 0, 0xCC, 0xCD, 0xCE]),
         UnchainLength = Some 8\<rparr>, al'))"
    using t
    by (simp add: r der_length_examples length_bare_example INT_MAX_def signed_data_simps
        signers_vars_def certlist_vars_def der_A)
  then show ?thesis
    by (simp add: granted_Nil valid_der_examples two_signers)
qed

section \<open>Facts about Pkcs7GetSignature\<close>

lemma sk_num_one: "sk_num (Some [a]) = 1"
  by (simp add: sk_num_def)

text \<open>
  C8, as the code has it. For an input whose envelope decodes to a signed SignedData with
  one signer info and an encrypted digest, and a non-NULL \<open>SignatureLength\<close>:
  \<open>Pkcs7GetSignature\<close> stores the digest's length; with a destination buffer of at least
  that size it copies the digest to the buffer's start and returns TRUE; without a
  destination (\<open>Signature\<close> NULL, or the caller's pointer NULL) it returns FALSE after
  storing the length.
\<close>

theorem GetSignature_length_then_bytes:
  assumes "WrapPkcs7Data P7Bytes wrap_locals al = Some (True, w, al1)"
    and "unat (word_of_nat (length P7Bytes) :: UINTN) \<le> INT_MAX"
    and "unat (WrapDataSize w) \<le> INT_MAX"
    and "decode (bytes_of (WrapData w)) = Some p7"
    and "type_is_signed p7"
    and "signer_info p7 = Some [SignInfo]"
    and "enc_digest SignInfo = Some EncDigest"
  shows "Pkcs7GetSignature decode (Some P7Bytes) None (Some n) al =
           Some (False, None, Some (word_of_nat (length EncDigest)), al1) \<and>
         Pkcs7GetSignature decode (Some P7Bytes) (Some None) (Some n) al =
           Some (False, Some None, Some (word_of_nat (length EncDigest)), al1) \<and>
         (length EncDigest \<le> length buf \<longrightarrow>
            Pkcs7GetSignature decode (Some P7Bytes) (Some (Some buf)) (Some n) al =
              Some (True, Some (Some (EncDigest @ drop (length EncDigest) buf)),
                    Some (word_of_nat (length EncDigest)), al1))"
  using assms
  by (simp add: Pkcs7GetSignature_def GetSignature_body_def Let_def sk_num_one CopyMem_def
      not_less [symmetric])

text \<open>
  The call that only asks for the length returns FALSE: the claim that it succeeds does
  not hold.
\<close>

theorem GetSignature_length_query_fails:
  "Pkcs7GetSignature (\<lambda>bytes. Some (signed_data [signer_info_A] [cert_A]))
     (Some bare_example) None (Some 0) [] = Some (False, None, Some 3, [])"
  by (simp add: Pkcs7GetSignature_def GetSignature_body_def Let_def sk_num_one
      WrapPkcs7Data_bare_example signed_data_def signer_info_A_def length_bare_example
      INT_MAX_def)

theorem GetSignature_length_then_bytes_witness:
  "Pkcs7GetSignature (\<lambda>bytes. Some (signed_data [signer_info_A] [cert_A]))
     (Some bare_example) None (Some 0) [] = Some (False, None, Some 3, []) \<and>
   Pkcs7GetSignature (\<lambda>bytes. Some (signed_data [signer_info_A] [cert_A]))
     (Some bare_example) (Some None) (Some 0) [] = Some (False, Some None, Some 3, []) \<and>
   Pkcs7GetSignature (\<lambda>bytes. Some (signed_data [signer_info_A] [cert_A]))
     (Some bare_example) (Some (Some [0, 0, 0, 0])) (Some 0) [] =
       Some (True, Some (Some [1, 2, 3, 0]), Some 3, [])"
  using GetSignature_length_then_bytes [OF WrapPkcs7Data_bare_example,
      where decode = "\<lambda>bytes. Some (signed_data [signer_info_A] [cert_A])"
        and ?p7.0 = "signed_data [signer_info_A] [cert_A]" and SignInfo = signer_info_A
        and EncDigest = "[1, 2, 3]" and buf = "[0, 0, 0, 0]" and n = 0]
  by (simp add: signed_data_def signer_info_A_def length_bare_example INT_MAX_def)

section \<open>Facts about the chain walk\<close>

lemma those_length: "those xs = Some ys \<Longrightarrow> length ys = length xs"
  by (induction xs arbitrary: ys) (auto split: option.splits)

lemma PKCS7_get0_signers_num:
  "PKCS7_get0_signers p7 al = (Some sk, al') \<Longrightarrow> sk_num (Some sk) = sk_num (signer_info p7)"
  by (auto simp add: PKCS7_get0_signers_def sk_num_def dest: those_length
      split: if_splits prod.splits option.splits)


lemma X509_find_by_subject_unique:
  "c \<in> set sk \<Longrightarrow> inj_on subject (set sk) \<Longrightarrow> X509_find_by_subject sk (subject c) = Some c"
  unfolding X509_find_by_subject_def
  by (induction sk) (auto simp add: inj_on_def)

lemma sk_X509_delete_ptr_remove1:
  "c \<in> set sk \<Longrightarrow> distinct (map handle sk) \<Longrightarrow> sk_X509_delete_ptr sk c = remove1 c sk"
  by (induction sk) auto

lemma distinct_handle_remove1:
  "distinct (map handle sk) \<Longrightarrow> distinct (map handle (remove1 c sk))"
  by (auto simp add: distinct_map intro: inj_on_diff)





lemma ctx_untrusted_init: "ctx_untrusted (X509_STORE_CTX_init store x chain) = chain"
  by (simp add: X509_STORE_CTX_init_def)

lemma InitChain_init:
  "InitChain (X509_STORE_CTX_init store x chain) al =
     (case grant al of (created, al1) \<Rightarrow>
        if \<not> created then (False, [], al1)
        else case grant al1 of (pushed, al2) \<Rightarrow> (pushed, [x], al2))"
  by (simp add: InitChain_def X509_STORE_CTX_init_def split: prod.splits)




lemma ChainWalk_granted:
  "ChainWalk ctx Cert Chain Untrusted al = (walked, Chain', Untrusted', al') \<Longrightarrow> granted al \<Longrightarrow>
     granted al'"
proof (induction ctx Cert Chain Untrusted al rule: ChainWalk.induct)
  case (1 CertCtx Cert CtxChain CtxUntrusted al)
  show ?case
  proof (cases "\<not> (case X509_STORE_CTX_get1_issuer CertCtx Cert of None \<Rightarrow> False
                   | Some I \<Rightarrow> X509_cmp_eq I Cert) \<and>
                (\<exists>U Issuer. CtxUntrusted = Some U \<and>
                   X509_find_by_subject U (issuer Cert) = Some Issuer)")
    case False
    with "1.prems" show ?thesis
      by (subst (asm) ChainWalk.simps) (auto split: if_splits option.splits)
  next
    case True
    then obtain U Issuer where
        nb: "\<not> (case X509_STORE_CTX_get1_issuer CertCtx Cert of None \<Rightarrow> False
                 | Some I \<Rightarrow> X509_cmp_eq I Cert)"
        and u: "CtxUntrusted = Some U" and f: "X509_find_by_subject U (issuer Cert) = Some Issuer"
      by blast
    have g: "grant al = (True, tl al)"
      using "1.prems"(2) by (rule grant_granted)
    have "ChainWalk CertCtx Issuer (CtxChain @ [Issuer]) (Some (sk_X509_delete_ptr U Issuer))
            (tl al) = (walked, Chain', Untrusted', al')"
      using "1.prems"(1) nb u f g by (subst (asm) ChainWalk.simps) simp
    then show ?thesis
      using "1.IH" [OF nb u f g [symmetric]] granted_tl [OF "1.prems"(2)] by simp
  qed
qed

lemma GetCertificatesList_stacks_granted:
  assumes "GetCertificatesList_stacks p7 al = (built, Chain, Untrusted, al')" and "granted al"
  shows "granted al'"
proof -
  obtain Signers al1 where s: "PKCS7_get0_signers p7 al = (Signers, al1)"
    by (cases "PKCS7_get0_signers p7 al")
  have al1: "granted al1"
    using s assms(2) by (rule PKCS7_get0_signers_granted)
  note g = granted_tl [OF al1] granted_tl [OF granted_tl [OF al1]]
    granted_tl [OF granted_tl [OF granted_tl [OF al1]]]
    granted_tl [OF granted_tl [OF granted_tl [OF granted_tl [OF al1]]]]
  show ?thesis
    using assms(1) s al1 g
    by (auto simp add: GetCertificatesList_stacks_def Let_def InitChain_init grant_eq
        dest: ChainWalk_granted split: if_splits prod.splits)
qed

lemma get1_issuer_no_store:
  "X509_STORE_CTX_get1_issuer (X509_STORE_CTX_init None x chain) y = None"
  by (simp add: X509_STORE_CTX_get1_issuer_def X509_STORE_CTX_init_def)

lemma ChainWalk_step:
  assumes "granted al" and "X509_find_by_subject U (issuer Cert) = Some Issuer"
  shows "ChainWalk (X509_STORE_CTX_init None x chain) Cert Chain (Some U) al =
           ChainWalk (X509_STORE_CTX_init None x chain) Issuer (Chain @ [Issuer])
             (Some (sk_X509_delete_ptr U Issuer)) (tl al)"
  by (subst ChainWalk.simps) (simp add: get1_issuer_no_store assms(2) grant_granted [OF assms(1)])

lemma ChainWalk_stop:
  assumes "X509_find_by_subject U (issuer Cert) = None"
  shows "ChainWalk (X509_STORE_CTX_init None x chain) Cert Chain (Some U) al =
           (True, Chain, Some U, al)"
  by (subst ChainWalk.simps) (simp add: get1_issuer_no_store assms)

lemma stacks_of_three:
  assumes "granted al"
    and "signer_info p7 = Some [si]" and "cert p7 = Some certs"
    and "X509_find_by_issuer_and_serial certs (ias_issuer si) (ias_serial si) = Some Leaf"
    and "set certs = {Leaf, Mid, Root}" and "distinct (map handle certs)"
    and "issuer Leaf = subject Mid" and "issuer Mid = subject Root"
    and "issuer Root = subject Root"
    and "distinct [subject Leaf, subject Mid, subject Root]"
  shows "\<exists>al'. granted al' \<and>
           GetCertificatesList_stacks p7 al = (True, [Leaf, Mid, Root], Some [], al')"
proof -
  have dc: "distinct certs"
    using assms(6) by (rule distinct_map [THEN iffD1, THEN conjunct1])
  have ne: "Leaf \<noteq> Mid" "Mid \<noteq> Root" "Leaf \<noteq> Root"
    using assms(10) by auto
  let ?U0 = "remove1 Leaf certs"
  let ?U1 = "remove1 Mid ?U0"
  let ?U2 = "remove1 Root ?U1"
  have s0: "set ?U0 = {Mid, Root}"
    using dc assms(5) ne by (auto simp add: set_remove1_eq)
  have d0: "distinct (map handle ?U0)"
    by (rule distinct_handle_remove1 [OF assms(6)])
  have s1: "set ?U1 = {Root}"
    using dc s0 ne by (auto simp add: set_remove1_eq)
  have d1: "distinct (map handle ?U1)"
    by (rule distinct_handle_remove1 [OF d0])
  have "set ?U2 = {}"
    using dc s1 by (simp add: set_remove1_eq)
  then have U2: "?U2 = []"
    by simp
  have del0: "sk_X509_delete_ptr certs Leaf = ?U0"
    by (rule sk_X509_delete_ptr_remove1) (use assms(5,6) in simp_all)
  have f0: "X509_find_by_subject ?U0 (issuer Leaf) = Some Mid"
    unfolding assms(7)
    by (rule X509_find_by_subject_unique) (use s0 assms(10) in \<open>auto simp add: inj_on_def\<close>)
  have del1: "sk_X509_delete_ptr ?U0 Mid = ?U1"
    by (rule sk_X509_delete_ptr_remove1) (use s0 d0 in simp_all)
  have f1: "X509_find_by_subject ?U1 (issuer Mid) = Some Root"
    unfolding assms(8)
    by (rule X509_find_by_subject_unique) (use s1 in \<open>auto simp add: inj_on_def\<close>)
  have del2: "sk_X509_delete_ptr ?U1 Root = []"
    using sk_X509_delete_ptr_remove1 [of Root ?U1] s1 d1 U2 by simp
  have f2: "X509_find_by_subject [] (issuer Root) = None"
    by (simp add: X509_find_by_subject_def)
  have signers: "PKCS7_get0_signers p7 al = (Some [Leaf], tl al)"
    using assms(2,3,4)
    by (simp add: PKCS7_get0_signers_def sk_num_def grant_granted [OF assms(1)])
  note g = granted_tl [OF assms(1)]
  note g2 = granted_tl [OF g]
  note g3 = granted_tl [OF g2]
  note g4 = granted_tl [OF g3]
  note g5 = granted_tl [OF g4]
  note g6 = granted_tl [OF g5]
  note g7 = granted_tl [OF g6]
  have walk: "ChainWalk (X509_STORE_CTX_init None Leaf (Some certs)) Leaf [Leaf] (Some ?U0)
                (tl (tl (tl (tl (tl al))))) =
              (True, [Leaf, Mid, Root], Some [], tl (tl (tl (tl (tl (tl (tl al)))))))"
    by (simp add: ChainWalk_step [OF g5 f0] del1 ChainWalk_step [OF g6 f1] del2
        ChainWalk_stop [OF f2])
  have "GetCertificatesList_stacks p7 al =
          (True, [Leaf, Mid, Root], Some [], tl (tl (tl (tl (tl (tl (tl al)))))))"
    by (simp add: GetCertificatesList_stacks_def signers sk_num_def Let_def InitChain_init
        grant_granted g g2 g3 g4 ctx_untrusted_init assms(3) del0 walk)
  with g7 show ?thesis
    by blast
qed



section \<open>Pkcs7GetCertificatesList on an input that is wrapped already\<close>

lemma Pkcs7GetCertificatesList_wrapped:
  assumes "IsWrapped P7Bytes = Some True"
    and "length P7Bytes \<le> INT_MAX"
    and "SignerChainCerts out \<noteq> None" and "ChainLength out \<noteq> None"
    and "UnchainCerts out \<noteq> None" and "UnchainLength out \<noteq> None"
    and "dec P7Bytes = Some p7" and "type_is_signed p7"
    and "GetCertificatesList_stacks p7 al = (built, Chain, Untrusted, al2)"
  shows "Pkcs7GetCertificatesList dec (Some P7Bytes) out al =
           (if \<not> built then Some (True, certlist_start out, al2)
            else GetCertificatesList_lists Chain Untrusted (certlist_start out) al2 \<bind>
                   (\<lambda>(Status, cb, out', al').
                      Some (Status, GetCertificatesList_Error Status cb out', al')))"
  using assms
  by (auto simp add: Pkcs7GetCertificatesList_def GetCertificatesList_body_def Let_def
      WrapPkcs7Data_wrapped unat_length_INT_MAX not_less [symmetric] certlist_start_def
      GetCertificatesList_Error_def GetCertificatesList_Release_def wrap_locals_def
      split: Option.bind_splits)

lemma GetCertificatesList_granted_run:
  assumes "IsWrapped P7Bytes = Some True"
    and "length P7Bytes \<le> INT_MAX"
    and "SignerChainCerts out \<noteq> None" and "ChainLength out \<noteq> None"
    and "UnchainCerts out \<noteq> None" and "UnchainLength out \<noteq> None"
    and "dec P7Bytes = Some p7" and "type_is_signed p7"
    and "granted al"
    and "GetCertificatesList_stacks p7 al = (True, Chain, Some U, al2)"
    and "\<forall>c \<in> set Chain. valid_der c" and "length Chain \<le> 255" and "Chain \<noteq> []"
    and "\<forall>c \<in> set U. valid_der c" and "length U \<le> 255"
  shows "\<exists>al'. Pkcs7GetCertificatesList dec (Some P7Bytes) out al =
           Some (True,
             (if U = []
              then out\<lparr>SignerChainCerts := Some (Allocated (CertList Chain)),
                       ChainLength := Some (word_of_nat (length (CertList Chain))),
                       UnchainCerts := Some NULL, UnchainLength := Some 0\<rparr>
              else out\<lparr>SignerChainCerts := Some (Allocated (CertList Chain)),
                       ChainLength := Some (word_of_nat (length (CertList Chain))),
                       UnchainCerts := Some (Allocated (CertList U)),
                       UnchainLength := Some (word_of_nat (length (CertList U)))\<rparr>), al')"
proof -
  have al2: "granted al2"
    using assms(10,9) by (rule GetCertificatesList_stacks_granted)
  note run = Pkcs7GetCertificatesList_wrapped
      [where dec = dec and ?p7.0 = p7, OF assms(1-6) assms(7) assms(8) assms(10)]
  from GetCertificatesList_lists_granted [OF al2 assms(11-15), of "certlist_start out"]
  obtain cb al3 where
      "GetCertificatesList_lists Chain (Some U) (certlist_start out) al2 =
         Some (True, cb,
           (if U = []
            then (certlist_start out)\<lparr>SignerChainCerts := Some (Allocated (CertList Chain)),
                     ChainLength := Some (word_of_nat (length (CertList Chain)))\<rparr>
            else (certlist_start out)\<lparr>SignerChainCerts := Some (Allocated (CertList Chain)),
                     ChainLength := Some (word_of_nat (length (CertList Chain))),
                     UnchainCerts := Some (Allocated (CertList U)),
                     UnchainLength := Some (word_of_nat (length (CertList U)))\<rparr>), al3)"
    by blast
  then show ?thesis
    unfolding run by (simp add: GetCertificatesList_Error_def certlist_start_def)
qed

lemma wrapped_run_three:
  "\<exists>al'. Pkcs7GetCertificatesList
       (\<lambda>bytes. Some (signed_data [signer_info_A] [cert_A, cert_B, cert_C]))
       (Some wrapped_example) certlist_vars [] =
     Some (True,
       \<lparr>SignerChainCerts =
          Some (Allocated [3, 3, 0, 0, 0, 0xCC, 0xCD, 0xCE, 2, 0, 0, 0, 0xBB, 0xBC,
                           1, 0, 0, 0, 0xAA]),
        ChainLength = Some 19, UnchainCerts = Some NULL, UnchainLength = Some 0\<rparr>, al')"
proof -
  have st: "\<exists>al2. granted al2 \<and>
      GetCertificatesList_stacks (signed_data [signer_info_A] [cert_A, cert_B, cert_C]) [] =
        (True, [cert_A, cert_B, cert_C], Some [], al2)"
    by (rule stacks_of_three [where si = signer_info_A and certs = "[cert_A, cert_B, cert_C]",
          OF granted_Nil])
      (simp_all add: signed_data_def signer_info_A_def X509_find_by_issuer_and_serial_def
        cert_A_def cert_B_def cert_C_def)
  then obtain al2 where
      st: "GetCertificatesList_stacks (signed_data [signer_info_A] [cert_A, cert_B, cert_C]) [] =
             (True, [cert_A, cert_B, cert_C], Some [], al2)"
    by blast
  have "\<exists>al'. Pkcs7GetCertificatesList
       (\<lambda>bytes. Some (signed_data [signer_info_A] [cert_A, cert_B, cert_C]))
       (Some wrapped_example) certlist_vars [] =
     Some (True,
       (if ([]::X509 list) = []
        then certlist_vars\<lparr>SignerChainCerts := Some (Allocated (CertList [cert_A, cert_B, cert_C])),
                 ChainLength := Some (word_of_nat (length (CertList [cert_A, cert_B, cert_C]))),
                 UnchainCerts := Some NULL, UnchainLength := Some 0\<rparr>
        else certlist_vars\<lparr>SignerChainCerts := Some (Allocated (CertList [cert_A, cert_B, cert_C])),
                 ChainLength := Some (word_of_nat (length (CertList [cert_A, cert_B, cert_C]))),
                 UnchainCerts := Some (Allocated (CertList [])),
                 UnchainLength := Some (word_of_nat (length (CertList [])))\<rparr>), al')"
    by (rule GetCertificatesList_granted_run
        [where dec = "\<lambda>bytes. Some (signed_data [signer_info_A] [cert_A, cert_B, cert_C])"
           and ?p7.0 = "signed_data [signer_info_A] [cert_A, cert_B, cert_C]",
         OF IsWrapped_wrapped_example wrapped_example_fits certlist_vars_given _ _ granted_Nil st])
      (simp_all add: signed_data_def valid_der_examples)
  then show ?thesis
    by (simp add: CertList_def CertRecords_def CertRecord_examples certlist_vars_def)
qed



section \<open>The release of a synthesized envelope\<close>

text \<open>
  On a bare input the envelope is a block of \<open>WrapPkcs7Data\<close>. When the decoder accepts
  it, the pointer that lines 749 to 751 hand to \<open>free\<close> has been advanced by the decoder:
  the call has no defined result. \<open>Pkcs7GetSigners\<close> and \<open>Pkcs7GetSignature\<close> decode through
  the copy \<open>Temp\<close> and release the block through its own address.
\<close>

lemma GetCertificatesList_body_Advanced:
  "dec bs = Some p7 \<Longrightarrow> GetCertificatesList_body dec Status bs out al = Some (St, pos, r) \<Longrightarrow>
     pos = Advanced"
  by (auto simp add: GetCertificatesList_body_def
      split: if_splits option.splits prod.splits Option.bind_splits)

lemma Pkcs7GetCertificatesList_bare_decoded:
  assumes "WrapPkcs7Data P7Bytes wrap_locals al = Some (True, w, al1)"
    and "\<not> WrapFlag w"
    and "length P7Bytes \<le> INT_MAX"
    and "unat (WrapDataSize w) \<le> INT_MAX"
    and "SignerChainCerts out \<noteq> None" and "ChainLength out \<noteq> None"
    and "UnchainCerts out \<noteq> None" and "UnchainLength out \<noteq> None"
    and "dec (bytes_of (WrapData w)) = Some p7"
  shows "Pkcs7GetCertificatesList dec (Some P7Bytes) out al = None"
proof -
  obtain blk where blk: "WrapData w = Allocated blk"
    using WrapPkcs7Data_True_bare [OF assms(1,2)] by blast
  show ?thesis
    using assms blk
    by (auto simp add: Pkcs7GetCertificatesList_def Let_def GetCertificatesList_Release_def
        free_def not_less [symmetric] unat_length_INT_MAX
        dest: GetCertificatesList_body_Advanced split: Option.bind_splits)
qed

lemma bare_run_undefined:
  "Pkcs7GetCertificatesList
       (\<lambda>bytes. Some (signed_data [signer_info_A] [cert_A, cert_B, cert_C]))
       (Some bare_example) certlist_vars [] = None"
  by (rule Pkcs7GetCertificatesList_bare_decoded
      [where dec = "\<lambda>bytes. Some (signed_data [signer_info_A] [cert_A, cert_B, cert_C])",
       OF WrapPkcs7Data_bare_example])
    (simp_all add: INT_MAX_def certlist_vars_def length_bare_example)

section \<open>The signer count\<close>

lemma GetCertificatesList_stacks_gate:
  assumes "sk_num (signer_info p7) \<noteq> 1"
  shows "\<exists>C U al'. GetCertificatesList_stacks p7 al = (False, C, U, al')"
proof (cases "PKCS7_get0_signers p7 al")
  case (Pair Signers al1)
  show ?thesis
  proof (cases Signers)
    case None
    with Pair show ?thesis
      by (simp add: GetCertificatesList_stacks_def)
  next
    case (Some sk)
    with Pair assms have "sk_num (Some sk) \<noteq> 1"
      by (simp add: PKCS7_get0_signers_num)
    with Pair Some show ?thesis
      by (simp add: GetCertificatesList_stacks_def)
  qed
qed

lemma GetSignature_body_gate:
  assumes "sk_num (signer_info p7) \<noteq> 1" and "dec bs = Some p7"
  shows "GetSignature_body dec bs Signature SignatureLength =
           Some (False, Signature, SignatureLength)"
  using assms by (simp add: GetSignature_body_def Let_def)

lemma sk_num_two: "sk_num (Some [a, b]) = 2"
  by (simp add: sk_num_def)

lemma sk_num_zero: "sk_num (Some []) = 0"
  by (simp add: sk_num_def)

lemma GetCertificatesList_count_not_one:
  assumes "IsWrapped P7Bytes = Some True"
    and "length P7Bytes \<le> INT_MAX"
    and "SignerChainCerts out \<noteq> None" and "ChainLength out \<noteq> None"
    and "UnchainCerts out \<noteq> None" and "UnchainLength out \<noteq> None"
    and "dec P7Bytes = Some p7"
    and "sk_num (signer_info p7) \<noteq> 1"
  shows "\<exists>al'. Pkcs7GetCertificatesList dec (Some P7Bytes) out al =
           Some (True, certlist_start out, al')"
proof -
  obtain C U al' where st: "GetCertificatesList_stacks p7 al = (False, C, U, al')"
    using GetCertificatesList_stacks_gate [OF assms(8)] by blast
  show ?thesis
    using assms(1-7) st
    by (auto simp add: Pkcs7GetCertificatesList_def GetCertificatesList_body_def Let_def
        WrapPkcs7Data_wrapped unat_length_INT_MAX not_less [symmetric] certlist_start_def
        GetCertificatesList_Error_def GetCertificatesList_Release_def wrap_locals_def)
qed

lemma GetSignature_count_not_one:
  assumes "IsWrapped P7Bytes = Some True" and "dec P7Bytes = Some p7"
    and "sk_num (signer_info p7) \<noteq> 1"
  shows "Pkcs7GetSignature dec (Some P7Bytes) Signature SignatureLength al =
           Some (False, Signature, SignatureLength, al)"
  using GetSignature_body_gate [where dec = dec and bs = P7Bytes, OF assms(3) assms(2)]
  by (simp add: Pkcs7GetSignature_def WrapPkcs7Data_wrapped [OF assms(1)])

text \<open>
  C6. An input that is wrapped already and whose SignedData has a number of signer infos
  other than one (none, a NULL stack, two and more). \<open>Pkcs7GetCertificatesList\<close> leaves
  through \<open>goto _Error\<close> at line 574 with \<open>Status\<close> still TRUE from line 554, and returns
  TRUE with the four outputs NULL and 0. \<open>Pkcs7GetSignature\<close>, which sets \<open>Status\<close> to FALSE
  at line 1009, returns FALSE with its outputs as at entry.
\<close>

theorem signer_count_not_gated:
  assumes "IsWrapped P7Bytes = Some True"
    and "length P7Bytes \<le> INT_MAX"
    and "SignerChainCerts out \<noteq> None" and "ChainLength out \<noteq> None"
    and "UnchainCerts out \<noteq> None" and "UnchainLength out \<noteq> None"
    and "decode P7Bytes = Some p7"
    and "sk_num (signer_info p7) \<noteq> 1"
  shows "(\<exists>al'. Pkcs7GetCertificatesList decode (Some P7Bytes) out al =
            Some (True,
              out\<lparr>SignerChainCerts := Some NULL, ChainLength := Some 0,
                  UnchainCerts := Some NULL, UnchainLength := Some 0\<rparr>, al')) \<and>
         Pkcs7GetSignature decode (Some P7Bytes) Signature SignatureLength al =
           Some (False, Signature, SignatureLength, al)"
proof
  show "\<exists>al'. Pkcs7GetCertificatesList decode (Some P7Bytes) out al =
            Some (True,
              out\<lparr>SignerChainCerts := Some NULL, ChainLength := Some 0,
                  UnchainCerts := Some NULL, UnchainLength := Some 0\<rparr>, al')"
    using GetCertificatesList_count_not_one
      [where dec = decode and ?p7.0 = p7, OF assms(1-6) assms(7) assms(8)]
    by (simp add: certlist_start_def)
next
  show "Pkcs7GetSignature decode (Some P7Bytes) Signature SignatureLength al =
           Some (False, Signature, SignatureLength, al)"
    by (rule GetSignature_count_not_one [where dec = decode and ?p7.0 = p7,
          OF assms(1) assms(7) assms(8)])
qed

theorem signer_count_not_gated_witness:
  "IsWrapped wrapped_example = Some True \<and>
   sk_num (signer_info (signed_data [signer_info_A, signer_info_A] [cert_A])) = 2 \<and>
   sk_num (signer_info (signed_data [] [cert_A])) = 0 \<and>
   (\<exists>al'. Pkcs7GetCertificatesList
        (\<lambda>bytes. Some (signed_data [signer_info_A, signer_info_A] [cert_A]))
        (Some wrapped_example) certlist_vars [] =
      Some (True,
        \<lparr>SignerChainCerts = Some NULL, ChainLength = Some 0, UnchainCerts = Some NULL,
         UnchainLength = Some 0\<rparr>, al')) \<and>
   (\<exists>al'. Pkcs7GetCertificatesList (\<lambda>bytes. Some (signed_data [] [cert_A]))
        (Some wrapped_example) certlist_vars [] =
      Some (True,
        \<lparr>SignerChainCerts = Some NULL, ChainLength = Some 0, UnchainCerts = Some NULL,
         UnchainLength = Some 0\<rparr>, al')) \<and>
   Pkcs7GetSignature (\<lambda>bytes. Some (signed_data [signer_info_A, signer_info_A] [cert_A]))
     (Some wrapped_example) (Some (Some [0, 0, 0, 0])) (Some 0) [] =
     Some (False, Some (Some [0, 0, 0, 0]), Some 0, []) \<and>
   Pkcs7GetSignature (\<lambda>bytes. Some (signed_data [] [cert_A]))
     (Some wrapped_example) (Some (Some [0, 0, 0, 0])) (Some 0) [] =
     Some (False, Some (Some [0, 0, 0, 0]), Some 0, [])"
proof -
  have n2: "sk_num (signer_info (signed_data [signer_info_A, signer_info_A] [cert_A])) \<noteq> 1"
    by (simp add: signed_data_simps sk_num_two)
  have n0: "sk_num (signer_info (signed_data [] [cert_A])) \<noteq> 1"
    by (simp add: signed_data_simps sk_num_zero)
  note two = signer_count_not_gated
    [where decode = "\<lambda>bytes. Some (signed_data [signer_info_A, signer_info_A] [cert_A])"
       and Signature = "Some (Some [0, 0, 0, 0])" and SignatureLength = "Some 0" and al = "[]",
     OF IsWrapped_wrapped_example wrapped_example_fits certlist_vars_given refl n2]
  note zero = signer_count_not_gated
    [where decode = "\<lambda>bytes. Some (signed_data [] [cert_A])"
       and Signature = "Some (Some [0, 0, 0, 0])" and SignatureLength = "Some 0" and al = "[]",
     OF IsWrapped_wrapped_example wrapped_example_fits certlist_vars_given refl n0]
  show ?thesis
    using two zero
    by (simp add: certlist_vars_def IsWrapped_wrapped_example signed_data_simps sk_num_two
        sk_num_zero)
qed

section \<open>Outputs on failure\<close>

lemma WrapPkcs7Data_False:
  "WrapPkcs7Data P7Bytes wout al = Some (False, wout', al') \<Longrightarrow> WrapData wout' = NULL"
  by (auto simp add: WrapPkcs7Data_def Let_def
      split: if_splits option.splits prod.splits Option.bind_splits)

lemma GetSigners_list_False:
  assumes "GetSigners_list Stack out al = Some (False, cb, out', al')"
  shows "CertStack out' = CertStack out \<and> StackLength out' = StackLength out \<and>
         (TrustedCert out' = TrustedCert out \<or> TrustedCert out' = Some NULL)"
  using assms
  by (auto simp add: GetSigners_list_def Let_def
      split: if_splits option.splits prod.splits Option.bind_splits loop_exit.splits)

lemma GetSigners_body_False:
  assumes "GetSigners_body dec bs out al = Some (False, cb, out', al')"
  shows "CertStack out' = CertStack out \<and> StackLength out' = StackLength out \<and>
         (TrustedCert out' = TrustedCert out \<or> TrustedCert out' = Some NULL)"
  using assms
  by (auto simp add: GetSigners_body_def dest!: GetSigners_list_False
      split: if_splits option.splits prod.splits)

lemma Pkcs7GetSigners_False:
  assumes "Pkcs7GetSigners dec P7Data out al = Some (False, out', al')"
  shows "(CertStack out' = CertStack out \<or> CertStack out' = Some NULL) \<and>
         (TrustedCert out' = TrustedCert out \<or> TrustedCert out' = Some NULL) \<and>
         StackLength out' = StackLength out"
  using assms
  by (auto simp add: Pkcs7GetSigners_def GetSigners_Exit_def dest!: GetSigners_body_False
      split: if_splits option.splits prod.splits Option.bind_splits)

lemma GetCertificatesList_unchained_False:
  assumes "GetCertificatesList_unchained U cb0 out al = Some (False, cb, out', al')"
  shows "out' = out"
  using assms
  by (auto simp add: GetCertificatesList_unchained_def
      split: if_splits option.splits prod.splits Option.bind_splits loop_exit.splits)

lemma GetCertificatesList_lists_False:
  assumes "GetCertificatesList_lists C U out al = Some (False, cb, out', al')"
  shows "UnchainCerts out' = UnchainCerts out \<and> UnchainLength out' = UnchainLength out"
  using assms
  by (auto simp add: GetCertificatesList_lists_def dest!: GetCertificatesList_unchained_False
      split: if_splits option.splits prod.splits Option.bind_splits loop_exit.splits)

lemma GetCertificatesList_body_False:
  assumes "GetCertificatesList_body dec True bs out al = Some (False, pos, cb, out', al')"
  shows "UnchainCerts out' = UnchainCerts out \<and> UnchainLength out' = UnchainLength out"
  using assms
  by (auto simp add: GetCertificatesList_body_def dest!: GetCertificatesList_lists_False
      split: if_splits option.splits prod.splits Option.bind_splits)

lemma Pkcs7GetCertificatesList_False:
  assumes "Pkcs7GetCertificatesList dec P7Data out al = Some (False, out', al')"
  shows "(UnchainCerts out' = UnchainCerts out \<or> UnchainCerts out' = Some NULL) \<and>
         (UnchainLength out' = UnchainLength out \<or> UnchainLength out' = Some 0)"
  using assms
  by (auto simp add: Pkcs7GetCertificatesList_def GetCertificatesList_Error_def Let_def
      dest!: GetCertificatesList_body_False
      split: if_splits option.splits prod.splits Option.bind_splits)

lemma GetSignature_body_False:
  "GetSignature_body dec bs Signature SignatureLength = Some (False, Signature', SignatureLength')
     \<Longrightarrow> Signature' = Signature"
  by (auto simp add: GetSignature_body_def Let_def
      split: if_splits option.splits prod.splits Option.bind_splits)

lemma Pkcs7GetSignature_False:
  "Pkcs7GetSignature dec P7Data Signature SignatureLength al =
     Some (False, Signature', SignatureLength', al') \<Longrightarrow> Signature' = Signature"
  by (auto simp add: Pkcs7GetSignature_def dest!: GetSignature_body_False
      split: if_splits option.splits prod.splits Option.bind_splits)

lemma WrapPkcs7Data_refused:
  "WrapPkcs7Data bare_example \<lparr>WrapFlag = True, WrapData = Borrowed [9], WrapDataSize = 7\<rparr> [False] =
     Some (False, \<lparr>WrapFlag = False, WrapData = NULL, WrapDataSize = 36\<rparr>, [])"
  by (simp add: WrapPkcs7Data_def IsWrapped_bare_example length_bare_example malloc_def)

lemma Pkcs7GetSigners_refused:
  "Pkcs7GetSigners (\<lambda>bytes. Some (signed_data [signer_info_A] [cert_A])) (Some bare_example)
     signers_vars [True, True, True, True, True, True, False] =
   Some (False,
     \<lparr>CertStack = Some NULL, StackLength = Some 77, TrustedCert = Some NULL,
      CertLength = Some 1\<rparr>, [])"
proof -
  have pop: "X509PopCertificate [cert_A] [True, True, True, True, False] =
               (Some ([0xAA], 1), [], [True, False])"
    by (simp add: X509PopCertificate_def cert_A_def malloc_def Let_def)
  have loop: "CertLoop [cert_A] loop_start [True, True, True, True, False] =
                Some (Drained,
                  \<lparr>Index = 1, CertBuf = Some [0, 1, 0, 0, 0, 0xAA], OldBuf = None,
                   BufferSize = 6, OldSize = 1\<rparr>, [], [False])"
    apply (subst CertLoop.simps)
    apply (simp add: pop malloc_def loop_start_def WriteUnaligned32_def UINT32_bytes_def
        CopyMem_def)
    apply (subst CertLoop.simps)
    apply (simp add: X509PopCertificate_Nil)
    done
  have list: "GetSigners_list [cert_A] signers_vars [True, True, True, True, False] =
                Some (False, Some [1, 1, 0, 0, 0, 0xAA],
                  signers_vars\<lparr>CertLength := Some 1, TrustedCert := Some NULL\<rparr>, [])"
    by (simp add: GetSigners_list_def loop write8_def malloc_def)
  have signers: "PKCS7_get0_signers (signed_data [signer_info_A] [cert_A])
                   [True, True, True, True, True, False] =
                 (Some [cert_A], [True, True, True, True, False])"
    by (simp add: PKCS7_get0_signers_def signed_data_def sk_num_def signer_info_A_def
        cert_A_def X509_find_by_issuer_and_serial_def)
  have wrap: "WrapPkcs7Data bare_example wrap_locals [True, True, True, True, True, True, False] =
     Some (True, \<lparr>WrapFlag = False, WrapData = Allocated wrapped_example, WrapDataSize = 36\<rparr>,
       [True, True, True, True, True, False])"
    by (rule WrapPkcs7Data_bare_example_granted) simp
  show ?thesis
    by (simp add: Pkcs7GetSigners_def GetSigners_body_def GetSigners_Exit_def wrap
        signers [unfolded signed_data_def] list [unfolded signers_vars_def]
        signers_vars_def length_bare_example INT_MAX_def signed_data_def)
qed

lemma refused_pool_stacks:
  "GetCertificatesList_stacks (signed_data [signer_info_A] [cert_A, cert_C])
     [True, True, True, True, True, True, True, True, True, True, True, True, False] =
   (True, [cert_A], Some [cert_C], [True, True, True, True, True, True, True, False])"
proof -
  have signers: "PKCS7_get0_signers (signed_data [signer_info_A] [cert_A, cert_C])
                   [True, True, True, True, True, True, True, True, True, True, True, True, False] =
                 (Some [cert_A],
                  [True, True, True, True, True, True, True, True, True, True, True, False])"
    by (simp add: PKCS7_get0_signers_def signed_data_def sk_num_def signer_info_A_def
        X509_find_by_issuer_and_serial_def cert_A_def cert_C_def)
  have del: "sk_X509_delete_ptr [cert_A, cert_C] cert_A = [cert_C]"
    by simp
  have f: "X509_find_by_subject [cert_C] (issuer cert_A) = None"
    by (simp add: X509_find_by_subject_def cert_A_def cert_C_def)
  show ?thesis
    by (simp add: GetCertificatesList_stacks_def signers sk_num_def Let_def InitChain_init
        ctx_untrusted_init del ChainWalk_stop [OF f] signed_data_simps)
qed

lemma CertLoop_NoMemory:
  "CertLoop Stack s al = Some (NoMemory, s', Stack', al') \<Longrightarrow> CertBuf s' = None"
proof (induction Stack arbitrary: s al rule: length_induct)
  case (1 Stack)
  obtain r St al1 where pop: "X509PopCertificate Stack al = (r, St, al1)"
    by (cases "X509PopCertificate Stack al")
  show ?case
  proof (cases r)
    case None
    with pop "1.prems" show ?thesis
      by (subst (asm) CertLoop.simps) simp
  next
    case (Some p)
    obtain SingleCert SingleCertSize where p: "p = (SingleCert, SingleCertSize)"
      by (cases p)
    note pop' = pop [unfolded Some p]
    have shorter: "length St < length Stack"
      using pop' by (rule X509PopCertificate_shorter)
    obtain blk al2 where
        m: "malloc (unat (BufferSize s + SingleCertSize + 4)) al1 = (blk, al2)"
      by (cases "malloc (unat (BufferSize s + SingleCertSize + 4)) al1")
    show ?thesis
    proof (cases blk)
      case None
      with "1.prems" pop' m show ?thesis
        by (subst (asm) CertLoop.simps) (auto simp add: Let_def)
    next
      case (Some b)
      from "1.prems" pop' m Some obtain s1 where
          "CertLoop St s1 al2 = Some (NoMemory, s', Stack', al')"
        by (subst (asm) CertLoop.simps) (auto simp add: Let_def split: Option.bind_splits)
      with "1.IH" shorter show ?thesis
        by blast
    qed
  qed
qed

text \<open>
  C2. \<open>Pkcs7GetCertificatesList\<close> on an input that is wrapped already, when the chained
  list has been serialized into \<open>buf\<close> and published (lines 694 and 695) and the block for
  the unchained list is refused (lines 712 to 717). The call returns FALSE;
  \<open>SignerChainCerts\<close> and \<open>ChainLength\<close> hold the chained list, neither the NULL and 0 of lines
  546 and 547 nor the values at entry. \<open>CertBuf\<close> is NULL after the refused \<open>malloc\<close>, so the
  reset of lines 772 to 776 is skipped.
\<close>

theorem refused_pool_block_leaves_chain_list:
  assumes "IsWrapped P7Bytes = Some True"
    and "length P7Bytes \<le> INT_MAX"
    and "SignerChainCerts out \<noteq> None" and "ChainLength out \<noteq> None"
    and "UnchainCerts out \<noteq> None" and "UnchainLength out \<noteq> None"
    and "decode P7Bytes = Some p7" and "type_is_signed p7"
    and "GetCertificatesList_stacks p7 al = (True, CtxChain, Some CtxUntrusted, al1)"
    and "CertLoop CtxChain loop_start al1 = Some (Drained, s, Rest, al2)"
    and "CertBuf s = Some buf" and "buf \<noteq> []"
    and "CertLoop CtxUntrusted loop_start al2 = Some (NoMemory, s', Rest', al3)"
  shows "Pkcs7GetCertificatesList decode (Some P7Bytes) out al =
           Some (False,
             out\<lparr>SignerChainCerts := Some (Allocated (buf[0 := Index s])),
                 ChainLength := Some (BufferSize s),
                 UnchainCerts := Some NULL, UnchainLength := Some 0\<rparr>, al3)"
proof -
  have cb: "CertBuf s' = None"
    using assms(13) by (rule CertLoop_NoMemory)
  have lists: "GetCertificatesList_lists CtxChain (Some CtxUntrusted) (certlist_start out) al1 =
      Some (False, None,
        (certlist_start out)\<lparr>SignerChainCerts := Some (Allocated (buf[0 := Index s])),
                             ChainLength := Some (BufferSize s)\<rparr>, al3)"
    using assms(12)
    by (simp add: GetCertificatesList_lists_def GetCertificatesList_unchained_def assms(10,11,13)
        write8_def cb)
  show ?thesis
    unfolding Pkcs7GetCertificatesList_wrapped
      [where dec = decode and ?p7.0 = p7, OF assms(1-6) assms(7) assms(8) assms(9)]
    by (simp add: lists [unfolded certlist_start_def] GetCertificatesList_Error_def
        certlist_start_def)
qed

theorem refused_pool_block_leaves_chain_list_witness:
  "IsWrapped wrapped_example = Some True \<and>
   Pkcs7GetCertificatesList (\<lambda>bytes. Some (signed_data [signer_info_A] [cert_A, cert_C]))
     (Some wrapped_example) certlist_vars
     [True, True, True, True, True, True, True, True, True, True, True, True, False] =
   Some (False,
     \<lparr>SignerChainCerts = Some (Allocated [1, 1, 0, 0, 0, 0xAA]), ChainLength = Some 6,
      UnchainCerts = Some NULL, UnchainLength = Some 0\<rparr>, []) \<and>
   SignerChainCerts certlist_vars = Some (Borrowed [9]) \<and> ChainLength certlist_vars = Some 77"
proof -
  have popA: "X509PopCertificate [cert_A] [True, True, True, True, True, True, True, False] =
               (Some ([0xAA], 1), [], [True, True, True, True, False])"
    by (simp add: X509PopCertificate_def cert_A_def malloc_def Let_def)
  have loopA: "CertLoop [cert_A] loop_start [True, True, True, True, True, True, True, False] =
                Some (Drained,
                  \<lparr>Index = 1, CertBuf = Some [0, 1, 0, 0, 0, 0xAA], OldBuf = None,
                   BufferSize = 6, OldSize = 1\<rparr>, [], [True, True, True, False])"
    apply (subst CertLoop.simps)
    apply (simp add: popA malloc_def loop_start_def WriteUnaligned32_def UINT32_bytes_def
        CopyMem_def)
    apply (subst CertLoop.simps)
    apply (simp add: X509PopCertificate_Nil)
    done
  have popC: "X509PopCertificate [cert_C] [True, True, True, False] =
               (Some ([0xCC, 0xCD, 0xCE], 3), [], [False])"
    by (simp add: X509PopCertificate_def cert_C_def malloc_def Let_def)
  have loopC: "CertLoop [cert_C] loop_start [True, True, True, False] =
                Some (NoMemory,
                  \<lparr>Index = 0, CertBuf = None, OldBuf = None, BufferSize = 8, OldSize = 1\<rparr>,
                  [], [])"
    apply (subst CertLoop.simps)
    apply (simp add: popC malloc_def loop_start_def)
    done
  show ?thesis
    using refused_pool_block_leaves_chain_list
      [where decode = "\<lambda>bytes. Some (signed_data [signer_info_A] [cert_A, cert_C])"
         and buf = "[0, 1, 0, 0, 0, 0xAA]",
       OF IsWrapped_wrapped_example wrapped_example_fits certlist_vars_given refl _
         refused_pool_stacks loopA _ _ loopC]
    by (simp add: signed_data_simps certlist_vars_def IsWrapped_wrapped_example)
qed

section \<open>The chain of a leaf, an intermediate and a root\<close>

text \<open>
  C7, as the code has it. The input is wrapped already; the embedded certificates are Leaf,
  Mid and Root, where Mid issued Leaf, Root issued Mid and itself, and the signer info names
  Leaf. With every allocation granted the call returns TRUE; the chained list holds three
  records in pop order, Root first, then Mid, then Leaf, and the unchained output stays
  NULL with length 0.
\<close>

theorem chain_list_root_first:
  assumes "IsWrapped P7Bytes = Some True"
    and "length P7Bytes \<le> INT_MAX"
    and "SignerChainCerts out \<noteq> None" and "ChainLength out \<noteq> None"
    and "UnchainCerts out \<noteq> None" and "UnchainLength out \<noteq> None"
    and "decode P7Bytes = Some p7" and "type_is_signed p7"
    and "granted al"
    and "signer_info p7 = Some [si]" and "cert p7 = Some certs"
    and "X509_find_by_issuer_and_serial certs (ias_issuer si) (ias_serial si) = Some Leaf"
    and "set certs = {Leaf, Mid, Root}" and "distinct (map handle certs)"
    and "issuer Leaf = subject Mid" and "issuer Mid = subject Root"
    and "issuer Root = subject Root"
    and "distinct [subject Leaf, subject Mid, subject Root]"
    and "valid_der Leaf" and "valid_der Mid" and "valid_der Root"
  shows "\<exists>al'. Pkcs7GetCertificatesList decode (Some P7Bytes) out al =
           Some (True,
             out\<lparr>SignerChainCerts :=
                   Some (Allocated (3 # CertRecord Root @ CertRecord Mid @ CertRecord Leaf)),
                 ChainLength :=
                   Some (word_of_nat
                     (13 + length (der Root) + length (der Mid) + length (der Leaf))),
                 UnchainCerts := Some NULL, UnchainLength := Some 0\<rparr>, al')"
proof -
  have list: "CertList [Leaf, Mid, Root] = 3 # CertRecord Root @ CertRecord Mid @ CertRecord Leaf"
    by (simp add: CertList_def CertRecords_def)
  have len: "length (CertList [Leaf, Mid, Root]) =
               13 + length (der Root) + length (der Mid) + length (der Leaf)"
    unfolding list by (simp add: length_CertRecord)
  from stacks_of_three [OF assms(9-18)] obtain al2 where
      st: "GetCertificatesList_stacks p7 al = (True, [Leaf, Mid, Root], Some [], al2)"
    by blast
  have "\<exists>al'. Pkcs7GetCertificatesList decode (Some P7Bytes) out al =
           Some (True,
             (if ([]::X509 list) = []
              then out\<lparr>SignerChainCerts := Some (Allocated (CertList [Leaf, Mid, Root])),
                       ChainLength := Some (word_of_nat (length (CertList [Leaf, Mid, Root]))),
                       UnchainCerts := Some NULL, UnchainLength := Some 0\<rparr>
              else out\<lparr>SignerChainCerts := Some (Allocated (CertList [Leaf, Mid, Root])),
                       ChainLength := Some (word_of_nat (length (CertList [Leaf, Mid, Root]))),
                       UnchainCerts := Some (Allocated (CertList [])),
                       UnchainLength := Some (word_of_nat (length (CertList [])))\<rparr>), al')"
    by (rule GetCertificatesList_granted_run
        [where dec = decode and ?p7.0 = p7, OF assms(1-6) assms(7) assms(8) assms(9) st])
      (use assms(19-21) in simp_all)
  then show ?thesis
    unfolding len by (simp add: list)
qed

text \<open>
  The certificates of the claim's example, Leaf issued by Intermediate issued by Root. On
  the wrapped input the first record of the chained list is the root's and the last is the
  leaf's. On the bare input, whose envelope the call synthesizes and the decoder accepts,
  the call has no defined result.
\<close>

theorem chain_list_not_leaf_first:
  "outcome (Pkcs7GetCertificatesList
       (\<lambda>bytes. Some (signed_data [signer_info_A] [cert_A, cert_B, cert_C]))
       (Some wrapped_example) certlist_vars []) =
     Some (True,
       \<lparr>SignerChainCerts =
          Some (Allocated [3, 3, 0, 0, 0, 0xCC, 0xCD, 0xCE, 2, 0, 0, 0, 0xBB, 0xBC,
                           1, 0, 0, 0, 0xAA]),
        ChainLength = Some 19, UnchainCerts = Some NULL, UnchainLength = Some 0\<rparr>) \<and>
   [3, 3, 0, 0, 0, 0xCC, 0xCD, 0xCE, 2, 0, 0, 0, 0xBB, 0xBC, 1, 0, 0, 0, 0xAA] \<noteq>
     3 # CertRecord cert_A @ CertRecord cert_B @ CertRecord cert_C \<and>
   Pkcs7GetCertificatesList
       (\<lambda>bytes. Some (signed_data [signer_info_A] [cert_A, cert_B, cert_C]))
       (Some bare_example) certlist_vars [] = None"
  using wrapped_run_three bare_run_undefined
  by (auto simp add: outcome_def CertRecord_examples)

theorem chain_list_root_first_witness:
  "IsWrapped wrapped_example = Some True \<and> granted [] \<and>
   set [cert_A, cert_B, cert_C] = {cert_A, cert_B, cert_C} \<and>
   issuer cert_A = subject cert_B \<and> issuer cert_B = subject cert_C \<and>
   issuer cert_C = subject cert_C \<and>
   (\<exists>al'. Pkcs7GetCertificatesList
       (\<lambda>bytes. Some (signed_data [signer_info_A] [cert_A, cert_B, cert_C]))
       (Some wrapped_example) certlist_vars [] =
     Some (True,
       \<lparr>SignerChainCerts =
          Some (Allocated [3, 3, 0, 0, 0, 0xCC, 0xCD, 0xCE, 2, 0, 0, 0, 0xBB, 0xBC,
                           1, 0, 0, 0, 0xAA]),
        ChainLength = Some 19, UnchainCerts = Some NULL, UnchainLength = Some 0\<rparr>, al'))"
proof -
  have "\<exists>al'. Pkcs7GetCertificatesList
       (\<lambda>bytes. Some (signed_data [signer_info_A] [cert_A, cert_B, cert_C]))
       (Some wrapped_example) certlist_vars [] =
     Some (True,
       certlist_vars\<lparr>SignerChainCerts :=
            Some (Allocated (3 # CertRecord cert_C @ CertRecord cert_B @ CertRecord cert_A)),
          ChainLength :=
            Some (word_of_nat
              (13 + length (der cert_C) + length (der cert_B) + length (der cert_A))),
          UnchainCerts := Some NULL, UnchainLength := Some 0\<rparr>, al')"
    by (rule chain_list_root_first
        [where decode = "\<lambda>bytes. Some (signed_data [signer_info_A] [cert_A, cert_B, cert_C])"
           and ?p7.0 = "signed_data [signer_info_A] [cert_A, cert_B, cert_C]"
           and si = signer_info_A and certs = "[cert_A, cert_B, cert_C]",
         OF IsWrapped_wrapped_example wrapped_example_fits certlist_vars_given _ _ granted_Nil])
      (simp_all add: signed_data_def signer_info_A_def X509_find_by_issuer_and_serial_def
        cert_A_def cert_B_def cert_C_def valid_der_def)
  then show ?thesis
    by (simp add: CertRecord_examples der_length_examples issuer_examples certlist_vars_def
        granted_Nil IsWrapped_wrapped_example)
qed

section \<open>Calls that return TRUE\<close>








section \<open>A stack that yields no certificate\<close>

text \<open>
  C9, as the code has it. When the first pop from a stack fails, no certificate is
  serialized. In \<open>Pkcs7GetCertificatesList\<close> the chained block then leaves the outputs as they
  are and goes on with the untrusted pool, and the unchained block returns TRUE with the
  outputs as they are (NULL and 0 since lines 546 to 549). In \<open>Pkcs7GetSigners\<close> the list
  block returns FALSE with the outputs as they are.
\<close>

theorem no_certificate_popped:
  "(X509PopCertificate Stack al = (None, Stack', al') \<longrightarrow>
      GetSigners_list Stack sout al = Some (False, None, sout, al')) \<and>
   (X509PopCertificate Chain al = (None, Chain', al') \<longrightarrow>
      GetCertificatesList_lists Chain CtxUntrusted cout al =
        GetCertificatesList_unchained CtxUntrusted None cout al') \<and>
   (X509PopCertificate Untrusted al = (None, Untrusted', al') \<longrightarrow>
      GetCertificatesList_unchained (Some Untrusted) cb cout al = Some (True, None, cout, al'))"
  by (simp add: GetSigners_list_def GetCertificatesList_lists_def
      GetCertificatesList_unchained_def CertLoop_no_pop loop_start_def split: option.splits)

text \<open>
  \<open>Pkcs7GetSigners\<close> with the memory BIO of the first pop refused: no certificate is popped
  and the call returns FALSE.
\<close>

theorem GetSigners_no_certificate_fails:
  "Pkcs7GetSigners (\<lambda>bytes. Some (signed_data [signer_info_A] [cert_A])) (Some bare_example)
     signers_vars [True, True, False] = Some (False, signers_vars, [])"
proof -
  have wrap: "WrapPkcs7Data bare_example wrap_locals [True, True, False] =
     Some (True, \<lparr>WrapFlag = False, WrapData = Allocated wrapped_example, WrapDataSize = 36\<rparr>,
       [True, False])"
    by (rule WrapPkcs7Data_bare_example_granted) simp
  have signers: "PKCS7_get0_signers (signed_data [signer_info_A] [cert_A]) [True, False] =
                 (Some [cert_A], [False])"
    by (simp add: PKCS7_get0_signers_def signed_data_def sk_num_def signer_info_A_def
        cert_A_def X509_find_by_issuer_and_serial_def)
  have pop: "X509PopCertificate [cert_A] [False] = (None, [], [])"
    by (simp add: X509PopCertificate_def)
  have list: "GetSigners_list [cert_A] signers_vars [False] = Some (False, None, signers_vars, [])"
    by (simp add: GetSigners_list_def CertLoop_no_pop [OF pop] loop_start_def)
  show ?thesis
    by (simp add: Pkcs7GetSigners_def GetSigners_body_def GetSigners_Exit_def wrap
        signers [unfolded signed_data_def] list [unfolded signers_vars_def]
        signers_vars_def length_bare_example INT_MAX_def signed_data_def)
qed

theorem no_certificate_popped_witness:
  "X509PopCertificate [cert_A] [False] = (None, [], []) \<and>
   GetSigners_list [cert_A] signers_vars [False] = Some (False, None, signers_vars, []) \<and>
   GetCertificatesList_lists [cert_A] (Some []) certlist_vars [False] =
     Some (True, None, certlist_vars, []) \<and>
   X509PopCertificate [] [] = (None, [], []) \<and>
   GetCertificatesList_unchained (Some []) None certlist_vars [] =
     Some (True, None, certlist_vars, [])"
proof -
  have pop: "X509PopCertificate [cert_A] [False] = (None, [], [])"
    by (simp add: X509PopCertificate_def)
  have nil: "X509PopCertificate [] [] = (None, [], [])"
    by (rule X509PopCertificate_Nil)
  show ?thesis
    using no_certificate_popped [of "[cert_A]" "[False]" "[]" "[]" signers_vars
        "[cert_A]" "[]" "Some []" certlist_vars "[]" "[]" None]
      no_certificate_popped [of "[]" "[]" "[]" "[]" signers_vars
        "[]" "[]" "Some []" certlist_vars "[]" "[]" None]
    by (simp add: pop nil)
qed

end
